theory Spec2Isabelle
  imports Complex_Main "HOL-Library.Log_Nat"
begin

section \<open>Data model (types.ts and the message shapes read by App.tsx)\<close>

datatype AppStatus = IDLE | GENERATING | EDITING | VOICE_CONNECTING | VOICE_ACTIVE

text \<open>
  \<open>HistoryItem\<close> and \<open>ImageState\<close> of types.ts. The interface declares
  \<open>HistoryItem.base64\<close> a string, but \<open>handleImageUpload\<close> stores
  \<open>result.split(',')[1]\<close> there and the generation handlers store
  \<open>part.inlineData.data\<close>, both of which may be \<open>undefined\<close> at run time;
  the field is therefore an option, \<open>None\<close> standing for \<open>null\<close> and
  \<open>undefined\<close> alike.
\<close>

record HistoryItem =
  item_url :: string
  item_base64 :: "string option"
  item_timestamp :: string

record ImageState =
  url :: "string option"
  base64 :: "string option"
  timestamp :: "string option"
  history :: "HistoryItem list"

text \<open>JavaScript truthiness of a possibly missing string: missing and empty are falsy.\<close>

definition truthy :: "string option \<Rightarrow> bool" where
  "truthy v = (case v of None \<Rightarrow> False | Some t \<Rightarrow> t \<noteq> [])"

text \<open>A possibly missing string inside a template literal or a string concatenation.\<close>

definition js_string :: "string option \<Rightarrow> string" where
  "js_string v = (case v of None \<Rightarrow> ''undefined'' | Some t \<Rightarrow> t)"

text \<open>Parts of a model response or of a live message: an optional inline payload, an optional text.\<close>

record InlineData =
  data :: "string option"

record Part =
  inlineData :: "InlineData option"
  part_text :: "string option"

record Content =
  parts :: "Part list"

record Candidate =
  content :: Content

record GenerateContentResponse =
  candidates :: "Candidate list"

text \<open>Values that the platform or the remote service may throw.\<close>

datatype error = TypeError | RequestError string | InvalidStateError | NotAllowedError

text \<open>The outcome of awaiting \<open>ai.models.generateContent\<close>: it throws or it returns a response.\<close>

type_synonym outcome = "error + GenerateContentResponse"

text \<open>What is sent to the generation endpoint: the \<open>parts\<close> of the request's contents.\<close>

datatype request_part = ReqText string | ReqInlineData "string option" string

record GenerateContentRequest =
  req_model :: string
  req_parts :: "request_part list"

section \<open>Live messages\<close>

text \<open>
  The shape of a \<open>LiveServerMessage\<close> as \<open>onmessage\<close> reads it: a field reached
  through \<open>?.\<close> is optional, a field read directly is present.
\<close>

record Transcription =
  tr_text :: string

record ServerContent =
  modelTurn :: "Content option"
  outputTranscription :: "Transcription option"
  interrupted :: "bool option"

record FunctionArgs =
  prompt :: string
  textContent :: "string option"

record FunctionCall =
  fc_id :: string
  fc_name :: string
  fc_args :: FunctionArgs

record ToolCall =
  functionCalls :: "FunctionCall list"

record LiveServerMessage =
  serverContent :: "ServerContent option"
  toolCall :: "ToolCall option"

section \<open>JavaScript numbers\<close>

text \<open>
  \<open>nextStartTimeRef.current\<close>, \<open>ctx.currentTime\<close>, \<open>buffer.duration\<close> and the
  argument of \<open>source.start\<close> are JavaScript numbers, that is IEEE 754 doubles. They are
  reals here; \<open>Math.max\<close> is exact, and \<open>+=\<close> is the exact sum rounded to the nearest
  double, ties to even (\<open>js_add\<close>). \<open>ulp_exponent x\<close> is the exponent of the spacing of
  the doubles at \<open>x\<close>: 52 below the binary exponent of \<open>x\<close>, and \<open>-1074\<close> in the
  subnormal range, read off the number of units of \<open>2 ^ -1074\<close> in \<open>x\<close>. Infinity and NaN
  are not represented: \<open>double_round\<close> is the rounding of the code for magnitudes below
  \<open>2 ^ 1024\<close>.
\<close>

definition round_even :: "real \<Rightarrow> int" where
  "round_even x =
     (if x - of_int \<lfloor>x\<rfloor> < 1 / 2 \<or> (x - of_int \<lfloor>x\<rfloor> = 1 / 2 \<and> even \<lfloor>x\<rfloor>)
      then \<lfloor>x\<rfloor> else \<lfloor>x\<rfloor> + 1)"

definition spacing_exponent :: "nat \<Rightarrow> real \<Rightarrow> int" where
  "spacing_exponent k x = int (floorlog 2 (nat \<lfloor>\<bar>x\<bar> * 2 ^ k\<rfloor>) - 53) - int k"

definition ulp_exponent :: "real \<Rightarrow> int" where
  "ulp_exponent x = spacing_exponent 1074 x"

definition double_round :: "real \<Rightarrow> real" where
  "double_round x = of_int (round_even (x / 2 powi ulp_exponent x)) * 2 powi ulp_exponent x"

definition is_double :: "real \<Rightarrow> bool" where
  "is_double x = (double_round x = x)"

definition js_add :: "real \<Rightarrow> real \<Rightarrow> real" where
  "js_add a b = double_round (a + b)"

section \<open>Audio objects\<close>

text \<open>
  Times are seconds on the output context's clock. An \<open>AudioBuffer\<close> is known here by
  its \<open>duration\<close> only. A playback source remembers its buffer and the time given to
  \<open>start\<close>; \<open>src_ended\<close> says that it has finished playing, and \<open>stop()\<close> on such
  a source is taken to throw, which is the case the handlers' \<open>try/catch\<close> is written for.
\<close>

record AudioBuffer =
  duration :: real

record PlaybackSource =
  src_buffer :: AudioBuffer
  src_when :: real
  src_ended :: bool

datatype ContextState = Suspended | Running | Closed

record AudioContext =
  ctx_id :: nat
  ctx_state :: ContextState

record AudioContexts =
  ctx_input :: AudioContext
  ctx_output :: AudioContext

record MediaStream =
  tracks :: "nat list"

section \<open>Application state and observable effects\<close>

datatype log_tag = GenerateFailed | EditFailed | SessionError

text \<open>Calls that leave the component, in the order they are made.\<close>

datatype effect =
    GenerateContent GenerateContentRequest
  | ConsoleError log_tag error
  | SendToolResponse nat string string string
  | SourceStart PlaybackSource
  | SourceStop PlaybackSource
  | NewAudioContext nat nat
  | ContextClose nat
  | TrackStop nat
  | LiveConnect nat
  | SessionClose nat

text \<open>
  The React state of \<open>App\<close> (\<open>status\<close>, \<open>imageState\<close>, \<open>isLiveActive\<close>,
  \<open>aiResponseText\<close>), its refs, and the effects issued so far. \<open>sourcesRef\<close> is a
  JavaScript \<open>Set\<close> of freshly created objects, iterated in insertion order: a list.
  A session is known by the number given to it when it is opened.
\<close>

record app =
  status :: AppStatus
  imageState :: ImageState
  isLiveActive :: bool
  aiResponseText :: string
  audioContextRef :: "AudioContexts option"
  nextStartTimeRef :: real
  sourcesRef :: "PlaybackSource list"
  sessionRef :: "nat option"
  streamRef :: "MediaStream option"
  effects :: "effect list"

definition initial :: app where
  "initial = \<lparr> status = IDLE,
      imageState = \<lparr> url = None, base64 = None, timestamp = None, history = [] \<rparr>,
      isLiveActive = False, aiResponseText = [],
      audioContextRef = None, nextStartTimeRef = 0, sourcesRef = [],
      sessionRef = None, streamRef = None, effects = [] \<rparr>"

text \<open>
  Every render of \<open>App\<close> creates its functions anew, and each of them reads
  \<open>imageState\<close> and \<open>isLiveActive\<close> as the constants of that render. A \<open>closure\<close>
  is what a function created by a render sees of the React state; refs and the updater form
  \<open>setImageState(prev => ...)\<close> reach the current state instead.
\<close>

record closure =
  c_imageState :: ImageState
  c_isLiveActive :: bool

definition render :: "app \<Rightarrow> closure" where
  "render s = \<lparr> c_imageState = imageState s, c_isLiveActive = isLiveActive s \<rparr>"

definition emit :: "effect \<Rightarrow> app \<Rightarrow> app" where
  "emit e s = s\<lparr> effects := effects s @ [e] \<rparr>"

section \<open>Image generation and editing\<close>

text \<open>
  \<open>[newItem, ...prev.history].slice(0, 10)\<close>, the expression that \<open>generateImage\<close>,
  \<open>editImage\<close> and \<open>handleImageUpload\<close> all use for the new history.
\<close>

definition push_history :: "HistoryItem \<Rightarrow> HistoryItem list \<Rightarrow> HistoryItem list" where
  "push_history item h = take 10 (item # h)"

definition newItem :: "InlineData \<Rightarrow> string \<Rightarrow> HistoryItem" where
  "newItem d ts = \<lparr> item_url = ''data:image/png;base64,'' @ js_string (data d),
      item_base64 = data d, item_timestamp = ts \<rparr>"

text \<open>The updater given to \<open>setImageState\<close>, applied to the state of the moment.\<close>

definition pushArtifact :: "InlineData \<Rightarrow> string \<Rightarrow> ImageState \<Rightarrow> ImageState" where
  "pushArtifact d ts prev = prev\<lparr> url := Some (item_url (newItem d ts)),
      base64 := item_base64 (newItem d ts), timestamp := Some ts,
      history := push_history (newItem d ts) (history prev) \<rparr>"

text \<open>\<open>response.candidates[0].content.parts\<close>: a \<open>TypeError\<close> when there is no candidate.\<close>

definition candidate_parts :: "GenerateContentResponse \<Rightarrow> error + Part list" where
  "candidate_parts r = (case candidates r of [] \<Rightarrow> Inl TypeError | c # _ \<Rightarrow> Inr (parts (content c)))"

text \<open>The \<open>for\<close> loop with its \<open>break\<close>: the first part that has inline data.\<close>

fun first_inline :: "Part list \<Rightarrow> InlineData option" where
  "first_inline [] = None"
| "first_inline (p # ps) = (case inlineData p of Some d \<Rightarrow> Some d | None \<Rightarrow> first_inline ps)"

text \<open>
  What the body of \<open>try\<close> finds once the request has been awaited: the error thrown
  by the request or by the access to the parts, or else the first inline payload, if any.
\<close>

definition image_of :: "outcome \<Rightarrow> error + InlineData option" where
  "image_of res =
     (case res of
        Inl e \<Rightarrow> Inl e
      | Inr r \<Rightarrow> (case candidate_parts r of Inl e \<Rightarrow> Inl e | Inr ps \<Rightarrow> Inr (first_inline ps)))"

text \<open>
  The body of \<open>try\<close> after the \<open>await\<close>; \<open>ts\<close> is what \<open>getTimestamp()\<close>
  returns at that moment.
\<close>

definition extract_image :: "outcome \<Rightarrow> string \<Rightarrow> app \<Rightarrow> error + app" where
  "extract_image res ts s =
     (case image_of res of
        Inl e \<Rightarrow> Inl e
      | Inr None \<Rightarrow> Inr s
      | Inr (Some d) \<Rightarrow> Inr (s\<lparr> imageState := pushArtifact d ts (imageState s) \<rparr>))"

text \<open>\<open>catch\<close> logs, \<open>finally\<close> sets the status from the render's \<open>isLiveActive\<close>.\<close>

definition settle :: "closure \<Rightarrow> log_tag \<Rightarrow> error + app \<Rightarrow> app \<Rightarrow> error + app" where
  "settle env tag body s =
     (let s1 = (case body of Inl e \<Rightarrow> emit (ConsoleError tag e) s | Inr s' \<Rightarrow> s')
      in Inr (s1\<lparr> status := (if c_isLiveActive env then VOICE_ACTIVE else IDLE) \<rparr>))"

text \<open>
  \<open>generateImage\<close> runs up to its \<open>await\<close> (\<open>generateImage_request\<close>), and resumes
  when the request settles (\<open>generateImage_resume\<close>), on the state of that later moment.
\<close>

definition generateImage_request :: "string \<Rightarrow> app \<Rightarrow> app" where
  "generateImage_request p s =
     emit (GenerateContent \<lparr> req_model = ''gemini-2.5-flash-image'',
             req_parts = [ReqText (''High quality, aesthetic, '' @ p)] \<rparr>)
       (s\<lparr> status := GENERATING \<rparr>)"

definition generateImage_resume :: "closure \<Rightarrow> outcome \<Rightarrow> string \<Rightarrow> app \<Rightarrow> error + app" where
  "generateImage_resume env res ts s = settle env GenerateFailed (extract_image res ts s) s"

definition generateImage :: "closure \<Rightarrow> string \<Rightarrow> outcome \<Rightarrow> string \<Rightarrow> app \<Rightarrow> error + app" where
  "generateImage env p res ts s = generateImage_resume env res ts (generateImage_request p s)"

text \<open>
  \<open>editImage\<close>: the guard and the request read the render's \<open>imageState\<close>.
  \<open>editImage_begin\<close> is the part that runs before control returns to the caller.
\<close>

definition editImage_request :: "closure \<Rightarrow> string \<Rightarrow> app \<Rightarrow> app" where
  "editImage_request env p s =
     emit (GenerateContent \<lparr> req_model = ''gemini-2.5-flash-image'',
             req_parts = [ReqInlineData (base64 (c_imageState env)) ''image/png'',
                          ReqText (''Modify the image based on this: '' @ p)] \<rparr>)
       (s\<lparr> status := EDITING \<rparr>)"

definition editImage_begin :: "closure \<Rightarrow> string \<Rightarrow> app \<Rightarrow> app" where
  "editImage_begin env p s =
     (if \<not> truthy (base64 (c_imageState env)) then s else editImage_request env p s)"

definition editImage_resume :: "closure \<Rightarrow> outcome \<Rightarrow> string \<Rightarrow> app \<Rightarrow> error + app" where
  "editImage_resume env res ts s = settle env EditFailed (extract_image res ts s) s"

definition editImage :: "closure \<Rightarrow> string \<Rightarrow> outcome \<Rightarrow> string \<Rightarrow> app \<Rightarrow> error + app" where
  "editImage env p res ts s =
     (if \<not> truthy (base64 (c_imageState env)) then Inr s
      else editImage_resume env res ts (editImage_request env p s))"

section \<open>Manual upload and selection\<close>

text \<open>\<open>str.split(',')\<close> and \<open>[1]\<close> of its result (\<open>undefined\<close> when there is no comma).\<close>

fun split_comma :: "string \<Rightarrow> string \<Rightarrow> string list" where
  "split_comma acc [] = [rev acc]"
| "split_comma acc (c # cs) =
     (if c = CHR '','' then rev acc # split_comma [] cs else split_comma (c # acc) cs)"

definition second_field :: "string \<Rightarrow> string option" where
  "second_field str = (case split_comma [] str of a # b # _ \<Rightarrow> Some b | _ \<Rightarrow> None)"

text \<open>
  \<open>reader.onload\<close> of \<open>handleImageUpload\<close>; \<open>result\<close> is the data URL read from
  the file. The new state is built from the render's \<open>imageState.history\<close>.
\<close>

definition uploadItem :: "string \<Rightarrow> string \<Rightarrow> HistoryItem" where
  "uploadItem result ts =
     \<lparr> item_url = result, item_base64 = second_field result, item_timestamp = ts \<rparr>"

definition handleImageUpload :: "closure \<Rightarrow> string \<Rightarrow> string \<Rightarrow> app \<Rightarrow> app" where
  "handleImageUpload env result ts s =
     s\<lparr> imageState := \<lparr> url = Some result, base64 = second_field result, timestamp = Some ts,
           history = push_history (uploadItem result ts) (history (c_imageState env)) \<rparr> \<rparr>"

definition selectFromHistory :: "HistoryItem \<Rightarrow> app \<Rightarrow> app" where
  "selectFromHistory item s =
     s\<lparr> imageState := (imageState s)\<lparr> url := Some (item_url item), base64 := item_base64 item,
           timestamp := Some (item_timestamp item) \<rparr> \<rparr>"

section \<open>The voice session\<close>

text \<open>\<open>msg.serverContent?.modelTurn?.parts[0]?.inlineData?.data\<close>.\<close>

definition audioBase64 :: "LiveServerMessage \<Rightarrow> string option" where
  "audioBase64 msg =
     (case serverContent msg of
        None \<Rightarrow> None
      | Some sc \<Rightarrow>
          (case modelTurn sc of
             None \<Rightarrow> None
           | Some c \<Rightarrow>
               (case parts c of
                  [] \<Rightarrow> None
                | p # _ \<Rightarrow> (case inlineData p of None \<Rightarrow> None | Some d \<Rightarrow> data d))))"

text \<open>
  The first block of \<open>onmessage\<close>. \<open>decodeAudio\<close> stands for
  \<open>decodeAudioData(decode(audioBase64), ctx, 24000, 1)\<close> of utils/audioUtils, which takes
  the payload to a buffer; \<open>now\<close> is \<open>ctx.currentTime\<close> as read by the handler.
\<close>

definition schedulePlayback :: "(string \<Rightarrow> AudioBuffer) \<Rightarrow> real \<Rightarrow> string \<Rightarrow> app \<Rightarrow> app" where
  "schedulePlayback decodeAudio now payload s =
     (let t = max (nextStartTimeRef s) now;
          buffer = decodeAudio payload;
          source = \<lparr> src_buffer = buffer, src_when = t, src_ended = False \<rparr>
      in emit (SourceStart source)
           (s\<lparr> nextStartTimeRef := js_add t (duration buffer),
               sourcesRef := sourcesRef s @ [source] \<rparr>))"

definition play_audio :: "(string \<Rightarrow> AudioBuffer) \<Rightarrow> real \<Rightarrow> LiveServerMessage \<Rightarrow> app \<Rightarrow> app" where
  "play_audio decodeAudio now msg s =
     (if truthy (audioBase64 msg) \<and> audioContextRef s \<noteq> None
      then schedulePlayback decodeAudio now (js_string (audioBase64 msg)) s
      else s)"

definition show_transcription :: "LiveServerMessage \<Rightarrow> app \<Rightarrow> app" where
  "show_transcription msg s =
     (case serverContent msg of
        None \<Rightarrow> s
      | Some sc \<Rightarrow>
          (case outputTranscription sc of
             None \<Rightarrow> s
           | Some t \<Rightarrow> s\<lparr> aiResponseText := tr_text t \<rparr>))"

text \<open>\<open>fc.args.prompt + (fc.args.textContent ? `. Text to add: ${fc.args.textContent}` : '')\<close>.\<close>

definition edit_prompt :: "FunctionArgs \<Rightarrow> string" where
  "edit_prompt a =
     prompt a @ (if truthy (textContent a) then ''. Text to add: '' @ js_string (textContent a) else [])"

text \<open>
  The \<open>if\<close> chain of the loop over \<open>msg.toolCall.functionCalls\<close>. Neither action is
  awaited: each runs up to its own \<open>await\<close> and the loop goes on.
\<close>

definition dispatch :: "closure \<Rightarrow> FunctionCall \<Rightarrow> app \<Rightarrow> app" where
  "dispatch env fc s =
     (if fc_name fc = ''generateImage'' then generateImage_request (prompt (fc_args fc)) s
      else if fc_name fc = ''editImage'' \<or> fc_name fc = ''posterLayout''
           then editImage_begin env (edit_prompt (fc_args fc)) s
      else s)"

text \<open>
  The callback given to \<open>sessionPromise.then\<close> for one function call; \<open>sid\<close> is the
  session of the handler. The callbacks run once the handler has returned, in the order in
  which they were registered.
\<close>

definition acknowledge :: "nat \<Rightarrow> FunctionCall \<Rightarrow> app \<Rightarrow> app" where
  "acknowledge sid fc s =
     (if sessionRef s \<noteq> None
      then emit (SendToolResponse sid (fc_id fc) (fc_name fc) ''ok'') s
      else s)"

text \<open>\<open>try { s.stop(); } catch(e) {}\<close> for one source, and the loop over the set.\<close>

definition source_stop :: "PlaybackSource \<Rightarrow> app \<Rightarrow> error + app" where
  "source_stop src s = (if src_ended src then Inl InvalidStateError else Inr s)"

definition try_stop :: "PlaybackSource \<Rightarrow> app \<Rightarrow> app" where
  "try_stop src s =
     (let s1 = emit (SourceStop src) s
      in case source_stop src s1 of Inl e \<Rightarrow> s1 | Inr s2 \<Rightarrow> s2)"

definition stop_sources :: "app \<Rightarrow> app" where
  "stop_sources s = (fold try_stop (sourcesRef s) s)\<lparr> sourcesRef := [], nextStartTimeRef := 0 \<rparr>"

definition is_interrupted :: "LiveServerMessage \<Rightarrow> bool" where
  "is_interrupted msg =
     (case serverContent msg of None \<Rightarrow> False | Some sc \<Rightarrow> interrupted sc = Some True)"

definition tool_calls :: "LiveServerMessage \<Rightarrow> FunctionCall list" where
  "tool_calls msg = (case toolCall msg of None \<Rightarrow> [] | Some tc \<Rightarrow> functionCalls tc)"

text \<open>
  \<open>onmessage\<close> as created by \<open>startVoiceSession\<close>: \<open>env\<close> is the render in which
  the session was started, so \<open>generateImage\<close> and \<open>editImage\<close> are the functions of
  that render.
\<close>

definition onmessage ::
  "closure \<Rightarrow> nat \<Rightarrow> (string \<Rightarrow> AudioBuffer) \<Rightarrow> real \<Rightarrow> LiveServerMessage \<Rightarrow> app \<Rightarrow> app" where
  "onmessage env sid decodeAudio now msg s =
     (let s1 = play_audio decodeAudio now msg s;
          s2 = show_transcription msg s1;
          s3 = fold (dispatch env) (tool_calls msg) s2;
          s4 = (if is_interrupted msg then stop_sources s3 else s3)
      in fold (acknowledge sid) (tool_calls msg) s4)"

text \<open>Messages handled one after the other, each with the clock reading of its handler.\<close>

fun run_messages ::
  "closure \<Rightarrow> nat \<Rightarrow> (string \<Rightarrow> AudioBuffer) \<Rightarrow> (real \<times> LiveServerMessage) list \<Rightarrow> app \<Rightarrow> app" where
  "run_messages env sid decodeAudio [] s = s"
| "run_messages env sid decodeAudio (m # ms) s =
     run_messages env sid decodeAudio ms (onmessage env sid decodeAudio (fst m) (snd m) s)"

section \<open>Starting and stopping\<close>

definition stop_tracks :: "app \<Rightarrow> app" where
  "stop_tracks s =
     (case streamRef s of
        None \<Rightarrow> s
      | Some stream \<Rightarrow> (fold (\<lambda>t. emit (TrackStop t)) (tracks stream) s)\<lparr> streamRef := None \<rparr>)"

definition close_context :: "AudioContext \<Rightarrow> app \<Rightarrow> app" where
  "close_context c s = (if ctx_state c \<noteq> Closed then emit (ContextClose (ctx_id c)) s else s)"

definition close_contexts :: "app \<Rightarrow> app" where
  "close_contexts s =
     (case audioContextRef s of
        None \<Rightarrow> s
      | Some cs \<Rightarrow>
          (close_context (ctx_output cs) (close_context (ctx_input cs) s))
            \<lparr> audioContextRef := None \<rparr>)"

text \<open>The callback given to \<open>sessionRef.current.then\<close>, run after the function has returned.\<close>

definition close_session :: "nat option \<Rightarrow> app \<Rightarrow> app" where
  "close_session h s = (case h of None \<Rightarrow> s | Some sid \<Rightarrow> emit (SessionClose sid) s)"

definition stopVoiceSession :: "app \<Rightarrow> error + app" where
  "stopVoiceSession s =
     (let s1 = s\<lparr> sessionRef := None \<rparr>;
          s2 = stop_tracks s1;
          s3 = close_contexts s2;
          s4 = stop_sources s3;
          s5 = s4\<lparr> isLiveActive := False, status := IDLE, aiResponseText := [] \<rparr>
      in Inr (close_session (sessionRef s) s5))"

text \<open>One call after another: the second runs when the first has returned.\<close>

definition and_then :: "error + app \<Rightarrow> (app \<Rightarrow> error + app) \<Rightarrow> error + app" where
  "and_then r f = (case r of Inl e \<Rightarrow> Inl e | Inr s \<Rightarrow> f s)"

text \<open>
  \<open>startVoiceSession\<close>, with \<open>mic\<close> the outcome of \<open>getUserMedia\<close>. A rejection
  leaves the function where it stood: the error comes with the state reached. Contexts and
  sessions are numbered by the count of effects at their creation.
\<close>

definition startVoiceSession :: "closure \<Rightarrow> error + MediaStream \<Rightarrow> app \<Rightarrow> error \<times> app + app" where
  "startVoiceSession env mic s =
     (if c_isLiveActive env
      then (case stopVoiceSession s of Inl e \<Rightarrow> Inl (e, s) | Inr s' \<Rightarrow> Inr s')
      else
        (let s1 = s\<lparr> status := VOICE_CONNECTING \<rparr>;
             inputCtx = \<lparr> ctx_id = length (effects s1), ctx_state = Running \<rparr>;
             s2 = emit (NewAudioContext (ctx_id inputCtx) 16000) s1;
             outputCtx = \<lparr> ctx_id = length (effects s2), ctx_state = Running \<rparr>;
             s3 = emit (NewAudioContext (ctx_id outputCtx) 24000) s2;
             s4 = s3\<lparr> audioContextRef := Some \<lparr> ctx_input = inputCtx, ctx_output = outputCtx \<rparr> \<rparr>
         in case mic of
              Inl e \<Rightarrow> Inl (e, s4)
            | Inr stream \<Rightarrow>
                (let s5 = s4\<lparr> streamRef := Some stream \<rparr>;
                     sid = length (effects s5);
                     s6 = emit (LiveConnect sid) s5
                 in Inr (s6\<lparr> sessionRef := Some sid \<rparr>))))"

definition onopen :: "app \<Rightarrow> app" where
  "onopen s = s\<lparr> isLiveActive := True, status := VOICE_ACTIVE \<rparr>"

definition onerror :: "error \<Rightarrow> app \<Rightarrow> error + app" where
  "onerror e s = stopVoiceSession (emit (ConsoleError SessionError e) s)"

definition onclose :: "app \<Rightarrow> error + app" where
  "onclose s = stopVoiceSession s"

text \<open>Sessions that have been opened and not closed, oldest first.\<close>

fun connected :: "effect list \<Rightarrow> nat list" where
  "connected [] = []"
| "connected (LiveConnect sid # es) = sid # connected es"
| "connected (e # es) = connected es"

fun closed :: "effect list \<Rightarrow> nat list" where
  "closed [] = []"
| "closed (SessionClose sid # es) = sid # closed es"
| "closed (e # es) = closed es"

definition open_sessions :: "app \<Rightarrow> nat list" where
  "open_sessions s = filter (\<lambda>sid. sid \<notin> set (closed (effects s))) (connected (effects s))"

section \<open>Observations and example values\<close>

text \<open>
  Projections of the effects used to state the properties, and concrete responses, messages
  and states on which the properties are evaluated.
\<close>

text \<open>Parts with an inline payload or a text, and responses of the generation endpoint.\<close>

definition inline_part :: "string \<Rightarrow> Part" where
  "inline_part b = \<lparr> inlineData = Some \<lparr> data = Some b \<rparr>, part_text = None \<rparr>"


definition response_of :: "Part list \<Rightarrow> GenerateContentResponse" where
  "response_of ps = \<lparr> candidates = [\<lparr> content = \<lparr> parts = ps \<rparr> \<rparr>] \<rparr>"

text \<open>A state whose history is full: ten items, the newest (\<open>9\<close>) first.\<close>

definition old_items :: "HistoryItem list" where
  "old_items = map (\<lambda>c. \<lparr> item_url = ''data:image/png;base64,'' @ [c], item_base64 = Some [c],
                           item_timestamp = ''09:00:0'' @ [c] \<rparr>) ''9876543210''"

definition studio :: app where
  "studio = initial\<lparr> imageState := \<lparr> url = Some ''data:image/png;base64,9'', base64 = Some ''9'',
                        timestamp = Some ''09:00:09'', history = old_items \<rparr> \<rparr>"

text \<open>A state with one uploaded image.\<close>

definition gallery :: app where
  "gallery = handleImageUpload (render initial) ''data:image/png;base64,QUJD'' ''09:00:00'' initial"

text \<open>
  The acknowledgements, the generation requests, the source starts and the source stops
  among the effects.
\<close>

fun is_response :: "effect \<Rightarrow> bool" where
  "is_response (SendToolResponse sid i n r) = True"
| "is_response e = False"

fun is_request :: "effect \<Rightarrow> bool" where
  "is_request (GenerateContent r) = True"
| "is_request e = False"

fun is_start :: "effect \<Rightarrow> bool" where
  "is_start (SourceStart src) = True"
| "is_start e = False"

fun is_stop :: "effect \<Rightarrow> bool" where
  "is_stop (SourceStop src) = True"
| "is_stop e = False"

definition responses :: "app \<Rightarrow> effect list" where
  "responses s = filter is_response (effects s)"

definition requests :: "app \<Rightarrow> effect list" where
  "requests s = filter is_request (effects s)"

definition started :: "app \<Rightarrow> effect list" where
  "started s = filter is_start (effects s)"

definition stops :: "app \<Rightarrow> effect list" where
  "stops s = filter is_stop (effects s)"

text \<open>The acknowledgement that \<open>acknowledge\<close> sends for one function call.\<close>

definition ack :: "nat \<Rightarrow> FunctionCall \<Rightarrow> effect" where
  "ack sid fc = SendToolResponse sid (fc_id fc) (fc_name fc) ''ok''"

text \<open>
  States of a voice session: after a first call of \<open>startVoiceSession\<close>
  (\<open>connecting\<close>), after \<open>onopen\<close> (\<open>listening\<close>), after
  \<open>stopVoiceSession\<close> (\<open>stopped\<close>), and after a second call of
  \<open>startVoiceSession\<close> made before \<open>onopen\<close> (\<open>started_twice\<close>), each by
  the function of the render current at that moment.
\<close>

definition microphone :: MediaStream where
  "microphone = \<lparr> tracks = [0] \<rparr>"

definition after_start :: "error \<times> app + app \<Rightarrow> app" where
  "after_start r = (case r of Inl (e, s) \<Rightarrow> s | Inr s \<Rightarrow> s)"

definition returned :: "error + app \<Rightarrow> app \<Rightarrow> app" where
  "returned r s = (case r of Inl e \<Rightarrow> s | Inr s' \<Rightarrow> s')"

definition connecting :: app where
  "connecting = after_start (startVoiceSession (render initial) (Inr microphone) initial)"

definition listening :: app where
  "listening = onopen connecting"

definition stopped :: app where
  "stopped = returned (stopVoiceSession listening) listening"

definition started_twice :: app where
  "started_twice = after_start (startVoiceSession (render connecting) (Inr microphone) connecting)"

text \<open>Live messages, and a decoder whose buffers last one second per character of payload.\<close>

definition call :: "string \<Rightarrow> string \<Rightarrow> string \<Rightarrow> string option \<Rightarrow> FunctionCall" where
  "call i n p t = \<lparr> fc_id = i, fc_name = n, fc_args = \<lparr> prompt = p, textContent = t \<rparr> \<rparr>"

definition tool_message :: "FunctionCall list \<Rightarrow> LiveServerMessage" where
  "tool_message fcs = \<lparr> serverContent = None, toolCall = Some \<lparr> functionCalls = fcs \<rparr> \<rparr>"

definition audio_message :: "string \<Rightarrow> bool option \<Rightarrow> LiveServerMessage" where
  "audio_message b i =
     \<lparr> serverContent = Some \<lparr> modelTurn = Some \<lparr> parts = [inline_part b] \<rparr>,
                              outputTranscription = None, interrupted = i \<rparr>,
       toolCall = None \<rparr>"

definition seconds :: "string \<Rightarrow> AudioBuffer" where
  "seconds b = \<lparr> duration = real (length b) \<rparr>"

text \<open>
  A decoder whose buffers last a tenth of a second per character of payload, the quotient
  rounded as a division of doubles is, and three chunks of 0.1, 0.7 and 0.1 seconds, all
  received at clock reading 0.
\<close>

definition tenths :: "string \<Rightarrow> AudioBuffer" where
  "tenths b = \<lparr> duration = double_round (real (length b) / 10) \<rparr>"

definition short_chunks :: "(real \<times> LiveServerMessage) list" where
  "short_chunks = [(0, audio_message ''A'' None), (0, audio_message ''AAAAAAA'' None),
                   (0, audio_message ''A'' None)]"

text \<open>A listening session with one source that has already finished playing.\<close>

definition playing :: app where
  "playing = listening\<lparr> sourcesRef := [\<lparr> src_buffer = seconds ''AAAA'', src_when = 0, src_ended = True \<rparr>],
                          nextStartTimeRef := 4 \<rparr>"

text \<open>
  From \<open>gallery\<close>: a generation has completed (\<open>gallery_generated\<close>); a voice
  session was started and is open (\<open>gallery_listening\<close>), and then an empty file was
  uploaded, whose data URL \<open>data:\<close> has no payload (\<open>cleared\<close>).
\<close>

definition gallery_generated :: app where
  "gallery_generated =
     returned (generateImage (render gallery) ''a cat'' (Inr (response_of [inline_part ''R0VO'']))
                 ''09:00:05'' gallery) gallery"

definition gallery_listening :: app where
  "gallery_listening = onopen (after_start (startVoiceSession (render gallery) (Inr microphone) gallery))"

definition cleared :: app where
  "cleared = handleImageUpload (render gallery_listening) ''data:'' ''09:01:00'' gallery_listening"

section \<open>Rounding to doubles\<close>

lemma round_even_of_int [simp]: "round_even (of_int n) = n"
  by (simp add: round_even_def)

lemma round_even_mono: "x \<le> y \<Longrightarrow> round_even x \<le> round_even y"
proof -
  assume xy: "x \<le> y"
  then have fl: "\<lfloor>x\<rfloor> \<le> \<lfloor>y\<rfloor>" by (rule floor_mono)
  show ?thesis
  proof (cases "\<lfloor>x\<rfloor> = \<lfloor>y\<rfloor>")
    case True
    then show ?thesis using xy by (auto simp: round_even_def)
  next
    case False
    with fl have "\<lfloor>x\<rfloor> + 1 \<le> \<lfloor>y\<rfloor>" by simp
    moreover have "round_even x \<le> \<lfloor>x\<rfloor> + 1" by (simp add: round_even_def)
    moreover have "\<lfloor>y\<rfloor> \<le> round_even y" by (simp add: round_even_def)
    ultimately show ?thesis by linarith
  qed
qed

lemma powi_units: "2 powi (int n - int k) = (2::real) ^ n / 2 ^ k"
  by (simp add: power_int_diff)

lemma spacing_exponent_ge: "- int k \<le> spacing_exponent k x"
  by (simp add: spacing_exponent_def)

lemma spacing_exponent_mono: "\<bar>x\<bar> \<le> \<bar>y\<bar> \<Longrightarrow> spacing_exponent k x \<le> spacing_exponent k y"
  unfolding spacing_exponent_def
  by (intro diff_right_mono iffD2 [OF of_nat_le_iff] diff_le_mono floorlog_mono nat_mono floor_mono
        mult_right_mono) simp_all

lemma units_less:
  fixes u :: real
  assumes "0 \<le> u"
  shows "u < 2 ^ floorlog 2 (nat \<lfloor>u\<rfloor>)"
proof -
  define m :: nat where "m = nat \<lfloor>u\<rfloor>"
  have um: "u < real m + 1" using assms unfolding m_def by linarith
  show ?thesis
  proof (cases "m = 0")
    case True
    then show ?thesis using um by (simp add: floorlog_def flip: m_def)
  next
    case False
    then have "m < 2 ^ floorlog 2 m" using floorlog_bounds [of m 2] by simp
    then have "m + 1 \<le> 2 ^ floorlog 2 m" by simp
    then have "real (m + 1) \<le> real (2 ^ floorlog 2 m)" by (rule iffD2 [OF of_nat_le_iff])
    then show ?thesis using um by (simp flip: m_def)
  qed
qed

lemma units_ge:
  fixes u :: real
  assumes "0 < nat \<lfloor>u\<rfloor>"
  shows "2 ^ (floorlog 2 (nat \<lfloor>u\<rfloor>) - 1) \<le> u"
proof -
  define m :: nat where "m = nat \<lfloor>u\<rfloor>"
  have mu: "real m \<le> u" using assms unfolding m_def by linarith
  have "0 < m" using assms by (simp add: m_def)
  then have "2 ^ (floorlog 2 m - 1) \<le> m" using floorlog_bounds [of m 2] by simp
  then have "real (2 ^ (floorlog 2 m - 1)) \<le> real m" by (rule iffD2 [OF of_nat_le_iff])
  then have "(2::real) ^ (floorlog 2 m - 1) \<le> real m" by simp
  then have "(2::real) ^ (floorlog 2 m - 1) \<le> u" using mu by linarith
  then show ?thesis by (simp only: m_def)
qed

lemma powi_less_cancel: "(2::real) powi a < 2 powi b \<Longrightarrow> a < b"
  using power_int_increasing [of b a "2::real"] by (cases "a < b") auto

lemma spacing_exponent_upper: "\<bar>x\<bar> < 2 powi (spacing_exponent k x + 53)"
proof -
  let ?u = "\<bar>x\<bar> * 2 ^ k"
  let ?L = "floorlog 2 (nat \<lfloor>?u\<rfloor>)"
  have "?u < 2 ^ ?L" by (rule units_less) simp
  also have "(2::real) ^ ?L \<le> 2 ^ (?L - 53 + 53)" by (rule power_increasing) simp_all
  finally have "?u < 2 ^ (?L - 53 + 53)" .
  then have "\<bar>x\<bar> < 2 ^ (?L - 53 + 53) / 2 ^ k" by (simp add: field_simps)
  also have "\<dots> = 2 powi (int (?L - 53 + 53) - int k)" by (simp only: powi_units)
  also have "int (?L - 53 + 53) - int k = spacing_exponent k x + 53" by (simp add: spacing_exponent_def)
  finally show ?thesis .
qed

lemma spacing_exponent_lower:
  assumes "- int k < spacing_exponent k x"
  shows "2 powi (spacing_exponent k x + 52) \<le> \<bar>x\<bar>"
proof -
  let ?u = "\<bar>x\<bar> * 2 ^ k"
  let ?L = "floorlog 2 (nat \<lfloor>?u\<rfloor>)"
  from assms have L: "53 < ?L" by (simp add: spacing_exponent_def)
  then have "0 < nat \<lfloor>?u\<rfloor>" by (auto simp: floorlog_def split: if_splits)
  then have "2 ^ (?L - 1) \<le> ?u" by (rule units_ge)
  then have "2 ^ (?L - 1) / 2 ^ k \<le> \<bar>x\<bar>" by (simp add: field_simps)
  moreover have "2 ^ (?L - 1) / 2 ^ k = (2::real) powi (int (?L - 1) - int k)" by (simp only: powi_units)
  moreover have "int (?L - 1) - int k = spacing_exponent k x + 52" using L by (simp add: spacing_exponent_def)
  ultimately show ?thesis by simp
qed

lemma ulp_exponent_ge: "- 1074 \<le> ulp_exponent x"
  using spacing_exponent_ge [of 1074 x] by (simp add: ulp_exponent_def)

lemma ulp_exponent_mono: "\<bar>x\<bar> \<le> \<bar>y\<bar> \<Longrightarrow> ulp_exponent x \<le> ulp_exponent y"
  unfolding ulp_exponent_def by (rule spacing_exponent_mono)

lemma ulp_exponent_upper: "\<bar>x\<bar> < 2 powi (ulp_exponent x + 53)"
  unfolding ulp_exponent_def by (rule spacing_exponent_upper)

lemma ulp_exponent_lower: "- 1074 < ulp_exponent x \<Longrightarrow> 2 powi (ulp_exponent x + 52) \<le> \<bar>x\<bar>"
  unfolding ulp_exponent_def using spacing_exponent_lower [of 1074 x] by simp

lemma ulp_exponent_eq:
  assumes lo: "2 powi (e + 52) \<le> \<bar>x\<bar>" and hi: "\<bar>x\<bar> < 2 powi (e + 53)" and e: "- 1074 \<le> e"
  shows "ulp_exponent x = e"
proof -
  have "2 powi (e + 52) < (2::real) powi (ulp_exponent x + 53)"
    using lo ulp_exponent_upper [of x] by linarith
  then have 1: "e \<le> ulp_exponent x"
    using powi_less_cancel by fastforce
  have "ulp_exponent x \<le> e"
  proof (rule ccontr)
    assume "\<not> ulp_exponent x \<le> e"
    then have gt: "e < ulp_exponent x" by simp
    with e have "- 1074 < ulp_exponent x" by simp
    then have "2 powi (ulp_exponent x + 52) \<le> \<bar>x\<bar>" by (rule ulp_exponent_lower)
    with hi have "(2::real) powi (ulp_exponent x + 52) < 2 powi (e + 53)" by linarith
    then have "ulp_exponent x + 52 < e + 53" by (rule powi_less_cancel)
    with gt show False by simp
  qed
  with 1 show ?thesis by simp
qed

lemma double_round_nonneg: "0 \<le> x \<Longrightarrow> 0 \<le> double_round x"
proof -
  assume "0 \<le> x"
  then have "0 \<le> x / 2 powi ulp_exponent x" by simp
  then have "round_even 0 \<le> round_even (x / 2 powi ulp_exponent x)" by (rule round_even_mono)
  then have "0 \<le> round_even (x / 2 powi ulp_exponent x)" using round_even_of_int [of 0] by simp
  then show ?thesis by (simp add: double_round_def)
qed

lemma mantissa_le:
  assumes "0 \<le> x"
  shows "round_even (x / 2 powi ulp_exponent x) \<le> 2 ^ 53"
proof -
  have "x < 2 powi (ulp_exponent x + 53)" using ulp_exponent_upper [of x] assms by simp
  also have "\<dots> = 2 powi ulp_exponent x * 2 ^ 53" by (simp add: power_int_add)
  finally have "x / 2 powi ulp_exponent x \<le> of_int (2 ^ 53)" by (simp add: field_simps)
  then have "round_even (x / 2 powi ulp_exponent x) \<le> round_even (of_int (2 ^ 53))" by (rule round_even_mono)
  then show ?thesis by (simp only: round_even_of_int)
qed

lemma mantissa_ge:
  assumes "0 \<le> x" and "- 1074 < ulp_exponent x"
  shows "2 ^ 52 \<le> round_even (x / 2 powi ulp_exponent x)"
proof -
  have "2 powi ulp_exponent x * 2 ^ 52 = (2::real) powi (ulp_exponent x + 52)" by (simp add: power_int_add)
  also have "\<dots> \<le> x" using ulp_exponent_lower [OF assms(2)] assms(1) by simp
  finally have "of_int (2 ^ 52) \<le> x / 2 powi ulp_exponent x" by (simp add: field_simps)
  then have "round_even (of_int (2 ^ 52)) \<le> round_even (x / 2 powi ulp_exponent x)" by (rule round_even_mono)
  then show ?thesis by (simp only: round_even_of_int)
qed

lemma double_round_mono:
  assumes "0 \<le> x" and "x \<le> y"
  shows "double_round x \<le> double_round y"
proof -
  let ?ex = "ulp_exponent x" and ?ey = "ulp_exponent y"
  have y: "0 \<le> y" using assms by simp
  have exy: "?ex \<le> ?ey" using assms by (intro ulp_exponent_mono) simp
  show ?thesis
  proof (cases "?ex = ?ey")
    case True
    have "x / 2 powi ?ey \<le> y / 2 powi ?ey" using assms(2) by (simp add: divide_right_mono)
    then have "round_even (x / 2 powi ?ey) \<le> round_even (y / 2 powi ?ey)" by (rule round_even_mono)
    then have "real_of_int (round_even (x / 2 powi ?ey)) \<le> real_of_int (round_even (y / 2 powi ?ey))" by simp
    then show ?thesis unfolding double_round_def True by (simp add: mult_right_mono)
  next
    case False
    with exy have lt: "?ex + 1 \<le> ?ey" by simp
    with ulp_exponent_ge [of x] have big: "- 1074 < ?ey" by linarith
    have "double_round x \<le> 2 ^ 53 * 2 powi ?ex"
      unfolding double_round_def using mantissa_le [OF assms(1)]
      by (intro mult_right_mono) (simp_all add: of_int_le_iff [symmetric] del: of_int_le_iff)
    also have "\<dots> = 2 powi (?ex + 1) * 2 ^ 52" by (simp add: power_int_add)
    also have "\<dots> \<le> 2 powi ?ey * 2 ^ 52"
      using lt by (intro mult_right_mono power_int_increasing) simp_all
    also have "\<dots> \<le> double_round y"
      unfolding double_round_def using mantissa_ge [OF y big]
      by (simp add: of_int_le_iff [symmetric] mult.commute del: of_int_le_iff)
    finally show ?thesis .
  qed
qed

lemma powi_le_cancel: "(2::real) powi a \<le> 2 powi b \<Longrightarrow> a \<le> b"
  using power_int_strict_increasing [of b a "2::real"] by (cases "a \<le> b") auto

lemma double_round_integral:
  assumes "x / 2 powi ulp_exponent x = of_int k"
  shows "double_round x = x"
  unfolding double_round_def assms round_even_of_int
  using assms by (simp add: field_simps)

lemma representable:
  assumes n: "0 \<le> n" "n \<le> 2 ^ 53" and e: "- 1074 \<le> e"
  shows "double_round (of_int n * 2 powi e) = of_int n * 2 powi e"
proof -
  let ?v = "real_of_int n * 2 powi e"
  let ?e' = "ulp_exponent ?v"
  have v: "\<bar>?v\<bar> = ?v" using n by simp
  show ?thesis
  proof (cases "?e' \<le> e")
    case True
    have "?v / 2 powi ?e' = of_int n * 2 powi (e - ?e')" by (simp add: power_int_diff)
    also have "\<dots> = of_int n * 2 ^ nat (e - ?e')" using True by (simp add: power_int_def)
    also have "\<dots> = of_int (n * 2 ^ nat (e - ?e'))" by simp
    finally show ?thesis by (rule double_round_integral)
  next
    case False
    then have gt: "e < ?e'" by simp
    with e have "- 1074 < ?e'" by simp
    then have lo: "2 powi (?e' + 52) \<le> ?v" using ulp_exponent_lower [of ?v] v by simp
    have "?v \<le> 2 ^ 53 * 2 powi e"
      using n by (intro mult_right_mono) (simp_all add: of_int_le_iff [symmetric] del: of_int_le_iff)
    also have "\<dots> = 2 powi (e + 53)" by (simp add: power_int_add)
    finally have "(2::real) powi (?e' + 52) \<le> 2 powi (e + 53)" using lo by linarith
    then have "?e' + 52 \<le> e + 53" by (rule powi_le_cancel)
    with gt have e': "?e' = e + 1" by simp
    have "2 powi e * 2 ^ 53 = (2::real) powi (?e' + 52)" unfolding e' by (simp add: power_int_add)
    also have "\<dots> \<le> ?v" by (rule lo)
    finally have "(2::real) ^ 53 \<le> of_int n" by simp
    then have "2 ^ 53 \<le> n" by (simp add: of_int_le_iff [symmetric] del: of_int_le_iff)
    with n have n53: "n = 2 ^ 53" by simp
    have "?v / 2 powi ?e' = ?v / 2 powi (e + 1)" by (simp only: e')
    also have "\<dots> = of_int (2 ^ 52)" unfolding n53 by (simp add: power_int_add)
    finally show ?thesis by (rule double_round_integral)
  qed
qed

lemma double_round_idem:
  assumes "0 \<le> x"
  shows "double_round (double_round x) = double_round x"
proof -
  have "0 \<le> x / 2 powi ulp_exponent x" using assms by simp
  then have "round_even 0 \<le> round_even (x / 2 powi ulp_exponent x)" by (rule round_even_mono)
  then have "0 \<le> round_even (x / 2 powi ulp_exponent x)" using round_even_of_int [of 0] by simp
  then show ?thesis
    unfolding double_round_def [of x]
    using mantissa_le [OF assms] ulp_exponent_ge [of x] by (intro representable)
qed

lemma double_round_eval:
  assumes "2 powi (e + 52) \<le> \<bar>x\<bar>" and "\<bar>x\<bar> < 2 powi (e + 53)" and "- 1074 \<le> e"
  shows "double_round x = of_int (round_even (x / 2 powi e)) * 2 powi e"
  unfolding double_round_def ulp_exponent_eq [OF assms] ..

lemma is_double_int: "0 \<le> n \<Longrightarrow> n \<le> 2 ^ 53 \<Longrightarrow> is_double (of_int n)"
  using representable [of n 0] by (simp add: is_double_def)

lemma is_double_round: "0 \<le> x \<Longrightarrow> is_double (double_round x)"
  by (simp add: is_double_def double_round_idem)

lemma is_double_max: "is_double a \<Longrightarrow> is_double b \<Longrightarrow> is_double (max a b)"
  by (simp add: max_def)

lemma double_add_ge:
  assumes "is_double a" and "0 \<le> a" and "0 \<le> d"
  shows "a \<le> double_round (a + d)"
proof -
  have "double_round a \<le> double_round (a + d)" using assms(2,3) by (intro double_round_mono) simp_all
  then show ?thesis using assms(1) by (simp add: is_double_def)
qed

lemma tenth: "double_round (1 / 10) = 3602879701896397 / 36028797018963968"
  by (subst double_round_eval [of "- 56"]) (simp_all add: round_even_def)

lemma seven_tenths: "double_round (7 / 10) = 3152519739159347 / 4503599627370496"
  by (subst double_round_eval [of "- 53"]) (simp_all add: round_even_def)

lemma sum_rounds_down:
  "double_round (3602879701896397 / 36028797018963968 + 3152519739159347 / 4503599627370496)
     = 7205759403792793 / 9007199254740992"
  by (subst double_round_eval [of "- 53"]) (simp_all add: round_even_def)

lemma sum_rounds_down_normal:
  "double_round (28823037615171173 / 36028797018963968) = 7205759403792793 / 9007199254740992"
  using sum_rounds_down by simp

section \<open>The bounded history\<close>

lemma push_history_length: "length (push_history x h) \<le> 10"
  by (simp add: push_history_def)

lemma push_history_hd: "push_history x h ! 0 = x"
  by (simp add: push_history_def)

lemma push_history_full: "length h = 10 \<Longrightarrow> push_history x h = x # butlast h"
  by (simp add: push_history_def butlast_conv_take numeral_eq_Suc)

lemma push_history_room: "length h < 10 \<Longrightarrow> push_history x h = x # h"
  by (simp add: push_history_def numeral_eq_Suc)

lemma take_append_take: "take n (xs @ take n ys) = take n (xs @ ys)"
  by (simp add: min_def)

lemma fold_push_history: "length h \<le> 10 \<Longrightarrow> fold push_history xs h = take 10 (rev xs @ h)"
proof (induction xs arbitrary: h)
  case Nil
  then show ?case by simp
next
  case (Cons x xs)
  have "fold push_history (x # xs) h = fold push_history xs (push_history x h)"
    by simp
  also have "\<dots> = take 10 (rev xs @ push_history x h)"
    by (rule Cons.IH) (rule push_history_length)
  also have "\<dots> = take 10 (rev xs @ take 10 (x # h))"
    by (simp only: push_history_def)
  also have "\<dots> = take 10 (rev xs @ x # h)"
    by (rule take_append_take)
  finally show ?case by simp
qed

section \<open>Generation, editing and upload\<close>

lemma settle_Inr: "settle env tag (Inr s') s = Inr (s'\<lparr> status := (if c_isLiveActive env then VOICE_ACTIVE else IDLE) \<rparr>)"
  by (simp add: settle_def)

lemma settle_Inl: "settle env tag (Inl e) s = Inr ((emit (ConsoleError tag e) s)\<lparr> status := (if c_isLiveActive env then VOICE_ACTIVE else IDLE) \<rparr>)"
  by (simp add: settle_def)

lemma extract_image_Some:
  "image_of res = Inr (Some d) \<Longrightarrow> extract_image res ts s = Inr (s\<lparr> imageState := pushArtifact d ts (imageState s) \<rparr>)"
  by (simp add: extract_image_def)

lemma extract_image_None: "image_of res = Inr None \<Longrightarrow> extract_image res ts s = Inr s"
  by (simp add: extract_image_def)

lemma extract_image_Inl: "image_of res = Inl e \<Longrightarrow> extract_image res ts s = Inl e"
  by (simp add: extract_image_def)

lemma generate_success_history:
  assumes "image_of res = Inr (Some d)"
  shows "\<exists>s'. generateImage env p res ts s = Inr s' \<and>
           history (imageState s') = push_history (newItem d ts) (history (imageState s))"
  using assms
  by (simp add: generateImage_def generateImage_resume_def generateImage_request_def
        extract_image_Some settle_Inr pushArtifact_def emit_def)

lemma edit_success_history:
  assumes "image_of res = Inr (Some d)" and "truthy (base64 (c_imageState env))"
  shows "\<exists>s'. editImage env p res ts s = Inr s' \<and>
           history (imageState s') = push_history (newItem d ts) (history (imageState s))"
  using assms
  by (simp add: editImage_def editImage_resume_def editImage_request_def
        extract_image_Some settle_Inr pushArtifact_def emit_def)

lemma upload_history:
  "history (imageState (handleImageUpload env result ts s)) =
     push_history (uploadItem result ts) (history (c_imageState env))"
  by (simp add: handleImageUpload_def)

lemma history_of_mutations:
  "(image_of res = Inr (Some d) \<longrightarrow>
      (\<exists>s'. generateImage env p res ts s = Inr s' \<and>
         history (imageState s') = push_history (newItem d ts) (history (imageState s)))) \<and>
   (image_of res = Inr (Some d) \<and> truthy (base64 (c_imageState env)) \<longrightarrow>
      (\<exists>s'. editImage env p res ts s = Inr s' \<and>
         history (imageState s') = push_history (newItem d ts) (history (imageState s)))) \<and>
   history (imageState (handleImageUpload env result ts s)) =
      push_history (uploadItem result ts) (history (c_imageState env)) \<and>
   (\<forall>xs. fold push_history xs [] = take 10 (rev xs))"
  using generate_success_history [of res d env p ts s] edit_success_history [of res d env p ts s]
    upload_history [of env result ts s] fold_push_history [of "[]"]
  by simp

lemma editImage_guard:
  assumes "\<not> truthy (base64 (c_imageState env))"
  shows "editImage env p res ts s = Inr s \<and> editImage_begin env p s = s"
  using assms by (simp add: editImage_def editImage_begin_def)

lemma generate_resume_eq:
  "generateImage_resume env res ts s =
     Inr ((case image_of res of
             Inl e \<Rightarrow> emit (ConsoleError GenerateFailed e) s
           | Inr None \<Rightarrow> s
           | Inr (Some d) \<Rightarrow> s\<lparr> imageState := pushArtifact d ts (imageState s) \<rparr>)
          \<lparr> status := (if c_isLiveActive env then VOICE_ACTIVE else IDLE) \<rparr>)"
  by (simp add: generateImage_resume_def settle_def extract_image_def split: sum.splits option.splits)




section \<open>What the handlers leave alone\<close>

lemma emit_fields [simp]:
  "status (emit e s) = status s" "imageState (emit e s) = imageState s"
  "isLiveActive (emit e s) = isLiveActive s" "aiResponseText (emit e s) = aiResponseText s"
  "audioContextRef (emit e s) = audioContextRef s" "nextStartTimeRef (emit e s) = nextStartTimeRef s"
  "sourcesRef (emit e s) = sourcesRef s" "sessionRef (emit e s) = sessionRef s"
  "streamRef (emit e s) = streamRef s" "effects (emit e s) = effects s @ [e]"
  by (simp_all add: emit_def)

lemma dispatch_refs:
  "audioContextRef (dispatch env fc s) = audioContextRef s"
  "nextStartTimeRef (dispatch env fc s) = nextStartTimeRef s"
  "sourcesRef (dispatch env fc s) = sourcesRef s"
  "sessionRef (dispatch env fc s) = sessionRef s"
  "imageState (dispatch env fc s) = imageState s"
  by (simp_all add: dispatch_def generateImage_request_def editImage_begin_def editImage_request_def)

lemma fold_dispatch_refs:
  "audioContextRef (fold (dispatch env) fcs s) = audioContextRef s \<and>
   nextStartTimeRef (fold (dispatch env) fcs s) = nextStartTimeRef s \<and>
   sourcesRef (fold (dispatch env) fcs s) = sourcesRef s \<and>
   sessionRef (fold (dispatch env) fcs s) = sessionRef s \<and>
   imageState (fold (dispatch env) fcs s) = imageState s"
  by (induction fcs arbitrary: s) (simp_all add: dispatch_refs)

lemma acknowledge_fields:
  "status (acknowledge sid fc s) = status s" "imageState (acknowledge sid fc s) = imageState s"
  "audioContextRef (acknowledge sid fc s) = audioContextRef s"
  "nextStartTimeRef (acknowledge sid fc s) = nextStartTimeRef s"
  "sourcesRef (acknowledge sid fc s) = sourcesRef s"
  "sessionRef (acknowledge sid fc s) = sessionRef s"
  by (simp_all add: acknowledge_def)

lemma fold_acknowledge_fields:
  "status (fold (acknowledge sid) fcs s) = status s \<and>
   imageState (fold (acknowledge sid) fcs s) = imageState s \<and>
   audioContextRef (fold (acknowledge sid) fcs s) = audioContextRef s \<and>
   nextStartTimeRef (fold (acknowledge sid) fcs s) = nextStartTimeRef s \<and>
   sourcesRef (fold (acknowledge sid) fcs s) = sourcesRef s \<and>
   sessionRef (fold (acknowledge sid) fcs s) = sessionRef s"
  by (induction fcs arbitrary: s) (simp_all add: acknowledge_fields)

lemma show_transcription_fields:
  "status (show_transcription msg s) = status s" "imageState (show_transcription msg s) = imageState s"
  "audioContextRef (show_transcription msg s) = audioContextRef s"
  "nextStartTimeRef (show_transcription msg s) = nextStartTimeRef s"
  "sourcesRef (show_transcription msg s) = sourcesRef s"
  "sessionRef (show_transcription msg s) = sessionRef s"
  "effects (show_transcription msg s) = effects s"
  by (simp_all add: show_transcription_def split: option.splits)

lemma play_audio_fields:
  "status (play_audio dec now msg s) = status s" "imageState (play_audio dec now msg s) = imageState s"
  "audioContextRef (play_audio dec now msg s) = audioContextRef s"
  "sessionRef (play_audio dec now msg s) = sessionRef s"
  by (simp_all add: play_audio_def schedulePlayback_def Let_def)

lemma try_stop_eq: "try_stop src s = emit (SourceStop src) s"
  by (simp add: try_stop_def source_stop_def Let_def)

lemma fold_try_stop: "fold try_stop srcs s = s\<lparr> effects := effects s @ map SourceStop srcs \<rparr>"
  by (induction srcs arbitrary: s) (simp_all add: try_stop_eq emit_def)

lemma stop_sources_eq:
  "stop_sources s = s\<lparr> effects := effects s @ map SourceStop (sourcesRef s), sourcesRef := [],
                       nextStartTimeRef := 0 \<rparr>"
  by (simp add: stop_sources_def fold_try_stop)

section \<open>Effects of a message\<close>

lemma play_audio_effects:
  "effects (play_audio dec now msg s) =
     effects s @ map SourceStart (drop (length (sourcesRef s)) (sourcesRef (play_audio dec now msg s)))"
  by (simp add: play_audio_def schedulePlayback_def Let_def)

lemma dispatch_effects:
  "\<exists>es. effects (dispatch env fc s) = effects s @ es \<and> (\<forall>e \<in> set es. is_request e)"
  by (simp add: dispatch_def generateImage_request_def editImage_begin_def editImage_request_def)

lemma fold_dispatch_effects:
  "\<exists>es. effects (fold (dispatch env) fcs s) = effects s @ es \<and> (\<forall>e \<in> set es. is_request e)"
proof (induction fcs arbitrary: s)
  case Nil
  then show ?case by simp
next
  case (Cons fc fcs)
  obtain es1 where 1: "effects (dispatch env fc s) = effects s @ es1" "\<forall>e \<in> set es1. is_request e"
    using dispatch_effects by blast
  obtain es2 where 2: "effects (fold (dispatch env) fcs (dispatch env fc s)) = effects (dispatch env fc s) @ es2"
    "\<forall>e \<in> set es2. is_request e"
    using Cons.IH by blast
  have "effects (fold (dispatch env) (fc # fcs) s) = effects s @ (es1 @ es2)"
    using 1 2 by simp
  moreover have "\<forall>e \<in> set (es1 @ es2). is_request e" using 1 2 by auto
  ultimately show ?case by blast
qed

lemma fold_acknowledge_effects:
  "effects (fold (acknowledge sid) fcs s) =
     effects s @ (if sessionRef s = None then [] else map (ack sid) fcs)"
proof (induction fcs arbitrary: s)
  case Nil
  then show ?case by simp
next
  case (Cons fc fcs)
  show ?case
    by (simp add: Cons.IH acknowledge_fields) (simp add: acknowledge_def ack_def)
qed

lemma onmessage_effects:
  "\<exists>reqs. effects (onmessage env sid dec now msg s) =
      effects s
        @ map SourceStart (drop (length (sourcesRef s)) (sourcesRef (play_audio dec now msg s)))
        @ reqs
        @ (if is_interrupted msg then map SourceStop (sourcesRef (play_audio dec now msg s)) else [])
        @ (if sessionRef s = None then [] else map (ack sid) (tool_calls msg)) \<and>
      (\<forall>e \<in> set reqs. is_request e)"
proof -
  let ?s1 = "play_audio dec now msg s"
  let ?s2 = "show_transcription msg ?s1"
  let ?s3 = "fold (dispatch env) (tool_calls msg) ?s2"
  let ?s4 = "if is_interrupted msg then stop_sources ?s3 else ?s3"
  let ?starts = "map SourceStart (drop (length (sourcesRef s)) (sourcesRef ?s1))"
  have 1: "effects ?s1 = effects s @ ?starts" by (rule play_audio_effects)
  obtain reqs where 3: "effects ?s3 = effects ?s2 @ reqs" "\<forall>e \<in> set reqs. is_request e"
    using fold_dispatch_effects by blast
  have src3: "sourcesRef ?s3 = sourcesRef ?s1"
    by (simp add: fold_dispatch_refs show_transcription_fields)
  have ses4: "sessionRef ?s4 = sessionRef s"
    by (simp add: stop_sources_eq fold_dispatch_refs show_transcription_fields play_audio_fields)
  have 4: "effects ?s4 = effects ?s3 @ (if is_interrupted msg then map SourceStop (sourcesRef ?s1) else [])"
    by (simp add: stop_sources_eq src3)
  have "effects (onmessage env sid dec now msg s) =
          effects ?s4 @ (if sessionRef s = None then [] else map (ack sid) (tool_calls msg))"
    unfolding onmessage_def Let_def fold_acknowledge_effects ses4 ..
  then have "effects (onmessage env sid dec now msg s) =
      effects s @ ?starts @ reqs
        @ (if is_interrupted msg then map SourceStop (sourcesRef ?s1) else [])
        @ (if sessionRef s = None then [] else map (ack sid) (tool_calls msg))"
    unfolding 4 3(1) show_transcription_fields 1 by simp
  then show ?thesis using 3(2) by blast
qed

lemma filter_none: "(\<forall>e \<in> set es. \<not> P e) \<Longrightarrow> filter P es = []"
  by (induction es) simp_all

lemma filter_requests:
  assumes "\<forall>e \<in> set reqs. is_request e"
  shows "filter is_response reqs = []" and "filter is_stop reqs = []" and "filter is_start reqs = []"
proof -
  have "\<not> is_response e \<and> \<not> is_stop e \<and> \<not> is_start e" if "e \<in> set reqs" for e
    using assms that by (cases e) auto
  then show "filter is_response reqs = []" and "filter is_stop reqs = []" and "filter is_start reqs = []"
    by (simp_all add: filter_none)
qed

lemma filter_maps:
  "filter is_response (map (ack sid) fcs) = map (ack sid) fcs"
  "filter is_response (map SourceStop srcs) = []"
  "filter is_response (map SourceStart srcs) = []"
  "filter is_stop (map SourceStop srcs) = map SourceStop srcs"
  "filter is_stop (map (ack sid) fcs) = []"
  "filter is_stop (map SourceStart srcs) = []"
  "filter is_start (map SourceStart srcs) = map SourceStart srcs"
  "filter is_start (map SourceStop srcs) = []"
  "filter is_start (map (ack sid) fcs) = []"
  "filter is_request (map SourceStop srcs) = []"
  "filter is_request (map SourceStart srcs) = []"
  "filter is_request (map (ack sid) fcs) = []"
  by (induction fcs; simp add: ack_def)+

lemma onmessage_responses:
  "responses (onmessage env sid dec now msg s) =
     responses s @ (if sessionRef s = None then [] else map (ack sid) (tool_calls msg))"
proof -
  obtain reqs where e: "effects (onmessage env sid dec now msg s) =
      effects s
        @ map SourceStart (drop (length (sourcesRef s)) (sourcesRef (play_audio dec now msg s)))
        @ reqs
        @ (if is_interrupted msg then map SourceStop (sourcesRef (play_audio dec now msg s)) else [])
        @ (if sessionRef s = None then [] else map (ack sid) (tool_calls msg))"
    and rq: "\<forall>e \<in> set reqs. is_request e"
    using onmessage_effects by blast
  show ?thesis
    unfolding responses_def e by (simp add: filter_requests [OF rq] filter_maps)
qed

lemma onmessage_stops:
  "stops (onmessage env sid dec now msg s) =
     stops s @ (if is_interrupted msg then map SourceStop (sourcesRef (play_audio dec now msg s)) else [])"
proof -
  obtain reqs where e: "effects (onmessage env sid dec now msg s) =
      effects s
        @ map SourceStart (drop (length (sourcesRef s)) (sourcesRef (play_audio dec now msg s)))
        @ reqs
        @ (if is_interrupted msg then map SourceStop (sourcesRef (play_audio dec now msg s)) else [])
        @ (if sessionRef s = None then [] else map (ack sid) (tool_calls msg))"
    and rq: "\<forall>e \<in> set reqs. is_request e"
    using onmessage_effects by blast
  show ?thesis
    unfolding stops_def e by (simp add: filter_requests [OF rq] filter_maps)
qed

lemma onmessage_started:
  "started (onmessage env sid dec now msg s) =
     started s @ map SourceStart (drop (length (sourcesRef s)) (sourcesRef (play_audio dec now msg s)))"
proof -
  obtain reqs where e: "effects (onmessage env sid dec now msg s) =
      effects s
        @ map SourceStart (drop (length (sourcesRef s)) (sourcesRef (play_audio dec now msg s)))
        @ reqs
        @ (if is_interrupted msg then map SourceStop (sourcesRef (play_audio dec now msg s)) else [])
        @ (if sessionRef s = None then [] else map (ack sid) (tool_calls msg))"
    and rq: "\<forall>e \<in> set reqs. is_request e"
    using onmessage_effects by blast
  show ?thesis
    unfolding started_def e by (simp add: filter_requests [OF rq] filter_maps)
qed

lemma onmessage_audioContextRef: "audioContextRef (onmessage env sid dec now msg s) = audioContextRef s"
  by (simp add: onmessage_def Let_def fold_acknowledge_fields fold_dispatch_refs stop_sources_eq
        show_transcription_fields play_audio_fields)

lemma onmessage_audio_step:
  assumes "truthy (audioBase64 msg)" and "audioContextRef s \<noteq> None" and "\<not> is_interrupted msg"
  shows "sourcesRef (onmessage env sid dec now msg s) =
           sourcesRef s @ [\<lparr> src_buffer = dec (js_string (audioBase64 msg)),
                              src_when = max (nextStartTimeRef s) now, src_ended = False \<rparr>]"
    and "nextStartTimeRef (onmessage env sid dec now msg s) =
           js_add (max (nextStartTimeRef s) now) (duration (dec (js_string (audioBase64 msg))))"
    and "started (onmessage env sid dec now msg s) =
           started s @ [SourceStart \<lparr> src_buffer = dec (js_string (audioBase64 msg)),
                              src_when = max (nextStartTimeRef s) now, src_ended = False \<rparr>]"
  using assms
  by (simp_all add: onmessage_started)
     (simp_all add: onmessage_def Let_def fold_acknowledge_fields fold_dispatch_refs
        show_transcription_fields play_audio_def schedulePlayback_def)

lemma run_messages_append:
  "run_messages env sid dec (ms @ ms') s = run_messages env sid dec ms' (run_messages env sid dec ms s)"
  by (induction ms arbitrary: s) simp_all

lemma run_messages_audioContextRef:
  "audioContextRef (run_messages env sid dec ms s) = audioContextRef s"
  by (induction ms arbitrary: s) (simp_all add: onmessage_audioContextRef)

section \<open>Scheduled playback and interruption\<close>

lemma js_add_ge: "is_double a \<Longrightarrow> 0 \<le> a \<Longrightarrow> 0 \<le> d \<Longrightarrow> a \<le> js_add a d"
  unfolding js_add_def by (rule double_add_ge)

lemma js_add_double: "0 \<le> a \<Longrightarrow> 0 \<le> d \<Longrightarrow> is_double (js_add a d)"
  unfolding js_add_def by (rule is_double_round) simp

text \<open>
  Property C1, as the code has it. Let messages that carry an audio payload be handled one
  after the other, none of them interrupted, while the audio contexts exist; let the cursor
  and the clock readings be doubles, the clock readings and the buffer durations
  non-negative. Then every message adds one source, in the order received, and
  \<open>source.start\<close> is called for exactly these sources, in that order. The source of the
  \<open>k\<close>-th message holds its decoded buffer and starts at the larger of the clock reading
  of its handler and the cursor found at that moment; the cursor is then the sum of this
  start time and the buffer's duration, rounded to a double. The start times are
  non-decreasing, each source starts no earlier than the cursor left by the one before it,
  no cursor is below its own start time, and the final cursor is below none of them.
\<close>

theorem gapless_playback:
  assumes ctx: "audioContextRef s \<noteq> None"
    and cur: "is_double (nextStartTimeRef s)"
    and audio: "\<forall>m \<in> set ms. truthy (audioBase64 (snd m)) \<and> \<not> is_interrupted (snd m)"
    and clock: "\<forall>m \<in> set ms. is_double (fst m) \<and> 0 \<le> fst m"
    and dur: "\<forall>m \<in> set ms. 0 \<le> duration (decodeAudio (js_string (audioBase64 (snd m))))"
  shows "\<exists>new. sourcesRef (run_messages env sid decodeAudio ms s) = sourcesRef s @ new \<and>
           length new = length ms \<and>
           started (run_messages env sid decodeAudio ms s) = started s @ map SourceStart new \<and>
           (\<forall>k < length ms.
              src_buffer (new ! k) = decodeAudio (js_string (audioBase64 (snd (ms ! k)))) \<and>
              src_when (new ! k) =
                max (fst (ms ! k)) (nextStartTimeRef (run_messages env sid decodeAudio (take k ms) s)) \<and>
              nextStartTimeRef (run_messages env sid decodeAudio (take (Suc k) ms) s) =
                js_add (src_when (new ! k)) (duration (src_buffer (new ! k)))) \<and>
           sorted (map src_when new) \<and>
           (\<forall>k. Suc k < length ms \<longrightarrow>
              js_add (src_when (new ! k)) (duration (src_buffer (new ! k))) \<le> src_when (new ! Suc k)) \<and>
           (\<forall>k < length ms.
              src_when (new ! k) \<le> js_add (src_when (new ! k)) (duration (src_buffer (new ! k))) \<and>
              js_add (src_when (new ! k)) (duration (src_buffer (new ! k)))
                \<le> nextStartTimeRef (run_messages env sid decodeAudio ms s)) \<and>
           is_double (nextStartTimeRef (run_messages env sid decodeAudio ms s))"
  using audio clock dur
proof (induction ms rule: rev_induct)
  case Nil
  then show ?case using cur by simp
next
  case (snoc m ms)
  let ?run = "run_messages env sid decodeAudio"
  let ?b = "decodeAudio (js_string (audioBase64 (snd m)))"
  let ?before = "?run ms s"
  let ?after = "?run (ms @ [m]) s"
  let ?src = "\<lparr> src_buffer = ?b, src_when = max (nextStartTimeRef ?before) (fst m), src_ended = False \<rparr>"
  from snoc.prems have prem_ms: "\<forall>m \<in> set ms. truthy (audioBase64 (snd m)) \<and> \<not> is_interrupted (snd m)"
    "\<forall>m \<in> set ms. is_double (fst m) \<and> 0 \<le> fst m"
    "\<forall>m \<in> set ms. 0 \<le> duration (decodeAudio (js_string (audioBase64 (snd m))))"
    and prem_m: "truthy (audioBase64 (snd m))" "\<not> is_interrupted (snd m)" "0 \<le> duration ?b"
      "is_double (fst m)" "0 \<le> fst m"
    by simp_all
  from snoc.IH [OF prem_ms] obtain new where
    src: "sourcesRef ?before = sourcesRef s @ new" and len: "length new = length ms"
    and sta: "started ?before = started s @ map SourceStart new"
    and each: "\<And>k. k < length ms \<Longrightarrow>
              src_buffer (new ! k) = decodeAudio (js_string (audioBase64 (snd (ms ! k)))) \<and>
              src_when (new ! k) = max (fst (ms ! k)) (nextStartTimeRef (?run (take k ms) s)) \<and>
              nextStartTimeRef (?run (take (Suc k) ms) s) =
                js_add (src_when (new ! k)) (duration (src_buffer (new ! k)))"
    and srt: "sorted (map src_when new)"
    and chain: "\<And>k. Suc k < length ms \<Longrightarrow>
              js_add (src_when (new ! k)) (duration (src_buffer (new ! k))) \<le> src_when (new ! Suc k)"
    and ends: "\<And>k. k < length ms \<Longrightarrow>
              src_when (new ! k) \<le> js_add (src_when (new ! k)) (duration (src_buffer (new ! k))) \<and>
              js_add (src_when (new ! k)) (duration (src_buffer (new ! k))) \<le> nextStartTimeRef ?before"
    and dbl: "is_double (nextStartTimeRef ?before)"
    by blast
  have ctx': "audioContextRef ?before \<noteq> None"
    using ctx by (simp add: run_messages_audioContextRef)
  have step: "?after = onmessage env sid decodeAudio (fst m) (snd m) ?before"
    by (simp add: run_messages_append)
  have src': "sourcesRef ?after = sourcesRef s @ (new @ [?src])"
    using onmessage_audio_step(1) [OF prem_m(1) ctx' prem_m(2)] src by (simp add: step)
  have cur': "nextStartTimeRef ?after = js_add (src_when ?src) (duration (src_buffer ?src))"
    using onmessage_audio_step(2) [OF prem_m(1) ctx' prem_m(2)] by (simp add: step)
  have sta': "started ?after = started s @ map SourceStart (new @ [?src])"
    using onmessage_audio_step(3) [OF prem_m(1) ctx' prem_m(2)] sta by (simp add: step)
  have when_src: "nextStartTimeRef ?before \<le> src_when ?src" by simp
  have src_dbl: "is_double (src_when ?src)" and src_pos: "0 \<le> src_when ?src"
    using dbl prem_m(4,5) by (simp_all add: is_double_max max.coboundedI2)
  have src_le: "src_when ?src \<le> js_add (src_when ?src) (duration (src_buffer ?src))"
    using js_add_ge [OF src_dbl src_pos] prem_m(3) by simp
  have dbl': "is_double (nextStartTimeRef ?after)"
    unfolding cur' using src_pos prem_m(3) by (intro js_add_double) simp_all
  have old_le: "src_when (new ! k) \<le> src_when ?src" if "k < length ms" for k
    using ends [OF that] when_src by linarith
  have nth_old: "(new @ [?src]) ! k = new ! k" if "k < length ms" for k
    using that len by (simp add: nth_append)
  have nth_new: "(new @ [?src]) ! length ms = ?src"
    using len by (simp add: nth_append)
  have P1: "length (new @ [?src]) = length (ms @ [m])" using len by simp
  have P2: "src_buffer ((new @ [?src]) ! k) = decodeAudio (js_string (audioBase64 (snd ((ms @ [m]) ! k)))) \<and>
            src_when ((new @ [?src]) ! k) = max (fst ((ms @ [m]) ! k)) (nextStartTimeRef (?run (take k (ms @ [m])) s)) \<and>
            nextStartTimeRef (?run (take (Suc k) (ms @ [m])) s) =
              js_add (src_when ((new @ [?src]) ! k)) (duration (src_buffer ((new @ [?src]) ! k)))"
    if "k < length (ms @ [m])" for k
  proof (cases "k < length ms")
    case True
    have a: "(ms @ [m]) ! k = ms ! k" "take k (ms @ [m]) = take k ms"
      "take (Suc k) (ms @ [m]) = take (Suc k) ms"
      using True by (simp_all add: nth_append)
    show ?thesis unfolding nth_old [OF True] a by (rule each [OF True])
  next
    case False
    with that have k: "k = length ms" by simp
    show ?thesis unfolding k nth_new using cur' by (simp add: max.commute)
  qed
  have P3: "sorted (map src_when (new @ [?src]))"
    using srt old_le len by (auto simp: sorted_append in_set_conv_nth)
  have P4: "js_add (src_when ((new @ [?src]) ! k)) (duration (src_buffer ((new @ [?src]) ! k)))
              \<le> src_when ((new @ [?src]) ! Suc k)" if "Suc k < length (ms @ [m])" for k
  proof (cases "Suc k < length ms")
    case True
    then show ?thesis using chain [OF True] by (simp add: nth_old)
  next
    case False
    with that have k: "Suc k = length ms" by simp
    then have kl: "k < length ms" by simp
    have last: "(new @ [?src]) ! Suc k = ?src" unfolding k by (rule nth_new)
    have "js_add (src_when (new ! k)) (duration (src_buffer (new ! k))) \<le> src_when ?src"
      using ends [OF kl] when_src by linarith
    then show ?thesis unfolding last nth_old [OF kl] .
  qed
  have P5: "src_when ((new @ [?src]) ! k)
              \<le> js_add (src_when ((new @ [?src]) ! k)) (duration (src_buffer ((new @ [?src]) ! k))) \<and>
            js_add (src_when ((new @ [?src]) ! k)) (duration (src_buffer ((new @ [?src]) ! k)))
              \<le> nextStartTimeRef ?after" if "k < length (ms @ [m])" for k
  proof (cases "k < length ms")
    case True
    have "nextStartTimeRef ?before \<le> nextStartTimeRef ?after"
      unfolding cur' using src_le when_src by linarith
    then have "js_add (src_when (new ! k)) (duration (src_buffer (new ! k))) \<le> nextStartTimeRef ?after"
      using ends [OF True] by linarith
    then show ?thesis unfolding nth_old [OF True] using ends [OF True] by blast
  next
    case False
    with that have k: "k = length ms" by simp
    show ?thesis unfolding k nth_new cur' using src_le by simp
  qed
  show ?case
    using src' P1 sta' P2 P3 P4 P5 dbl' by blast
qed

lemma onmessage_interrupted_refs:
  assumes "is_interrupted msg"
  shows "sourcesRef (onmessage env sid dec now msg s) = []"
    and "nextStartTimeRef (onmessage env sid dec now msg s) = 0"
  using assms by (simp_all add: onmessage_def Let_def fold_acknowledge_fields stop_sources_eq)

text \<open>
  Property C7. A message whose \<open>interrupted\<close> flag is set leaves \<open>sourcesRef\<close>
  empty and the cursor at zero, however many sources were active. Every source active at
  that moment (those present before, and the one this message may have scheduled) receives
  one \<open>stop()\<close>, in order; \<open>try_stop\<close> goes on in the same way whether that call
  returns or throws.
\<close>

theorem interruption_clears_playback:
  assumes "is_interrupted msg"
  shows "sourcesRef (onmessage env sid dec now msg s) = [] \<and>
         nextStartTimeRef (onmessage env sid dec now msg s) = 0 \<and>
         stops (onmessage env sid dec now msg s) =
           stops s @ map SourceStop (sourcesRef (play_audio dec now msg s)) \<and>
         (\<forall>src s0. try_stop src s0 = emit (SourceStop src) s0)"
  using assms onmessage_interrupted_refs [OF assms, of env sid dec now s]
  by (simp add: onmessage_stops try_stop_eq)

section \<open>Stopping and starting\<close>

lemma connecting_eq:
  "connecting = initial\<lparr> status := VOICE_CONNECTING,
      audioContextRef := Some \<lparr> ctx_input = \<lparr> ctx_id = 0, ctx_state = Running \<rparr>,
                               ctx_output = \<lparr> ctx_id = 1, ctx_state = Running \<rparr> \<rparr>,
      streamRef := Some microphone, sessionRef := Some 2,
      effects := [NewAudioContext 0 16000, NewAudioContext 1 24000, LiveConnect 2] \<rparr>"
  by (simp add: connecting_def after_start_def startVoiceSession_def render_def initial_def
        emit_def Let_def)

lemma fold_track_stop:
  "fold (\<lambda>t. emit (TrackStop t)) ts s = s\<lparr> effects := effects s @ map TrackStop ts \<rparr>"
  by (induction ts arbitrary: s) (simp_all add: emit_def)

lemma stop_tracks_eq:
  "stop_tracks s = s\<lparr> streamRef := None,
      effects := effects s @ (case streamRef s of None \<Rightarrow> [] | Some st \<Rightarrow> map TrackStop (tracks st)) \<rparr>"
  by (cases "streamRef s") (simp_all add: stop_tracks_def fold_track_stop)

lemma close_contexts_eq:
  "close_contexts s = s\<lparr> audioContextRef := None,
      effects := effects s @
        (case audioContextRef s of
           None \<Rightarrow> []
         | Some cs \<Rightarrow>
             (if ctx_state (ctx_input cs) \<noteq> Closed then [ContextClose (ctx_id (ctx_input cs))] else []) @
             (if ctx_state (ctx_output cs) \<noteq> Closed then [ContextClose (ctx_id (ctx_output cs))] else [])) \<rparr>"
  by (cases "audioContextRef s") (simp_all add: close_contexts_def close_context_def emit_def)

lemma close_session_eq:
  "close_session h s =
     s\<lparr> effects := effects s @ (case h of None \<Rightarrow> [] | Some sid \<Rightarrow> [SessionClose sid]) \<rparr>"
  by (cases h) (simp_all add: close_session_def emit_def)

lemma stopVoiceSession_eq:
  "stopVoiceSession s =
     Inr (s\<lparr> sessionRef := None, streamRef := None, audioContextRef := None, sourcesRef := [],
            nextStartTimeRef := 0, isLiveActive := False, status := IDLE, aiResponseText := [],
            effects := effects s
              @ (case streamRef s of None \<Rightarrow> [] | Some st \<Rightarrow> map TrackStop (tracks st))
              @ (case audioContextRef s of
                   None \<Rightarrow> []
                 | Some cs \<Rightarrow>
                     (if ctx_state (ctx_input cs) \<noteq> Closed then [ContextClose (ctx_id (ctx_input cs))] else []) @
                     (if ctx_state (ctx_output cs) \<noteq> Closed then [ContextClose (ctx_id (ctx_output cs))] else []))
              @ map SourceStop (sourcesRef s)
              @ (case sessionRef s of None \<Rightarrow> [] | Some sid \<Rightarrow> [SessionClose sid]) \<rparr>)"
  unfolding stopVoiceSession_def Let_def
  by (simp add: stop_tracks_eq close_contexts_eq stop_sources_eq close_session_eq)

lemma stopVoiceSession_idle:
  assumes "sessionRef s = None" "streamRef s = None" "audioContextRef s = None" "sourcesRef s = []"
    "nextStartTimeRef s = 0" "isLiveActive s = False" "status s = IDLE" "aiResponseText s = []"
  shows "stopVoiceSession s = Inr s"
  unfolding stopVoiceSession_eq using assms by simp

text \<open>
  Property C2. \<open>stopVoiceSession\<close> returns without an error from any state. Session
  reference, microphone stream, audio contexts, active sources, cursor, active-voice flag,
  status and utterance text are then those of the initial state; the image state is
  untouched. Calling it again returns the same state, with no further effect, and calling it
  on the initial (never started) state changes nothing.
\<close>

theorem stop_is_idempotent:
  "\<exists>s'. stopVoiceSession s = Inr s' \<and>
      s'\<lparr> imageState := imageState initial, effects := effects initial \<rparr> = initial \<and>
      imageState s' = imageState s \<and>
      and_then (stopVoiceSession s) stopVoiceSession = stopVoiceSession s \<and>
      stopVoiceSession initial = Inr initial"
proof -
  obtain s' where s': "stopVoiceSession s = Inr s'" and
    fields: "sessionRef s' = None" "streamRef s' = None" "audioContextRef s' = None"
      "sourcesRef s' = []" "nextStartTimeRef s' = 0" "isLiveActive s' = False" "status s' = IDLE"
      "aiResponseText s' = []" "imageState s' = imageState s"
    unfolding stopVoiceSession_eq by simp
  have fresh: "s'\<lparr> imageState := imageState initial, effects := effects initial \<rparr> = initial"
    using fields by (simp add: initial_def)
  have again: "stopVoiceSession s' = Inr s'"
    using fields(1-8) by (rule stopVoiceSession_idle)
  have twice: "and_then (stopVoiceSession s) stopVoiceSession = stopVoiceSession s"
    by (simp add: and_then_def s' again)
  have never: "stopVoiceSession initial = Inr initial"
    by (rule stopVoiceSession_idle) (simp_all add: initial_def)
  show ?thesis using s' fresh fields(9) twice never by blast
qed

section \<open>Tool calls\<close>

lemma dispatch_unknown:
  assumes "fc_name fc \<noteq> ''generateImage''" "fc_name fc \<noteq> ''editImage''" "fc_name fc \<noteq> ''posterLayout''"
  shows "dispatch env fc s = s"
  using assms by (simp add: dispatch_def)

lemma fold_dispatch_unknown:
  assumes "\<forall>fc \<in> set fcs. fc_name fc \<noteq> ''generateImage'' \<and> fc_name fc \<noteq> ''editImage'' \<and>
             fc_name fc \<noteq> ''posterLayout''"
  shows "fold (dispatch env) fcs s = s"
  using assms by (induction fcs arbitrary: s) (simp_all add: dispatch_unknown)

lemma onmessage_unknown_state:
  assumes "\<forall>fc \<in> set (tool_calls msg). fc_name fc \<noteq> ''generateImage'' \<and> fc_name fc \<noteq> ''editImage'' \<and>
             fc_name fc \<noteq> ''posterLayout''"
  shows "status (onmessage env sid dec now msg s) = status s"
    and "imageState (onmessage env sid dec now msg s) = imageState s"
    and "requests (onmessage env sid dec now msg s) = requests s"
proof -
  let ?s2 = "show_transcription msg (play_audio dec now msg s)"
  let ?s4 = "if is_interrupted msg then stop_sources ?s2 else ?s2"
  have om: "onmessage env sid dec now msg s = fold (acknowledge sid) (tool_calls msg) ?s4"
    unfolding onmessage_def Let_def fold_dispatch_unknown [OF assms] ..
  show "status (onmessage env sid dec now msg s) = status s"
    unfolding om by (simp add: fold_acknowledge_fields stop_sources_eq show_transcription_fields play_audio_fields)
  show "imageState (onmessage env sid dec now msg s) = imageState s"
    unfolding om by (simp add: fold_acknowledge_fields stop_sources_eq show_transcription_fields play_audio_fields)
  have "effects ?s4 = effects s
          @ map SourceStart (drop (length (sourcesRef s)) (sourcesRef (play_audio dec now msg s)))
          @ (if is_interrupted msg then map SourceStop (sourcesRef ?s2) else [])"
    by (simp add: stop_sources_eq show_transcription_fields play_audio_effects [symmetric])
  then show "requests (onmessage env sid dec now msg s) = requests s"
    unfolding om requests_def fold_acknowledge_effects
    by (simp add: filter_maps)
qed

lemma onmessage_responses_live:
  assumes "sessionRef s \<noteq> None"
  shows "responses (onmessage env sid dec now msg s) =
           responses s @ map (\<lambda>fc. SendToolResponse sid (fc_id fc) (fc_name fc) ''ok'') (tool_calls msg)"
proof -
  have "map (ack sid) (tool_calls msg) =
          map (\<lambda>fc. SendToolResponse sid (fc_id fc) (fc_name fc) ''ok'') (tool_calls msg)"
    by (simp add: ack_def)
  then show ?thesis using assms by (auto simp: onmessage_responses)
qed

lemma fold_dispatch_skip:
  assumes "fc_name fc \<noteq> ''generateImage''" "fc_name fc \<noteq> ''editImage''" "fc_name fc \<noteq> ''posterLayout''"
  shows "fold (dispatch env) (pre @ fc # post) s = fold (dispatch env) (pre @ post) s"
  by (simp add: dispatch_unknown [OF assms])

lemma onmessage_without_call:
  assumes unknown: "fc_name fc \<noteq> ''generateImage''" "fc_name fc \<noteq> ''editImage''"
      "fc_name fc \<noteq> ''posterLayout''"
    and calls: "tool_calls msg = pre @ fc # post"
  shows "status (onmessage env sid dec now msg s) =
           status (onmessage env sid dec now (msg\<lparr> toolCall := Some \<lparr> functionCalls = pre @ post \<rparr> \<rparr>) s)"
    and "imageState (onmessage env sid dec now msg s) =
           imageState (onmessage env sid dec now (msg\<lparr> toolCall := Some \<lparr> functionCalls = pre @ post \<rparr> \<rparr>) s)"
    and "requests (onmessage env sid dec now msg s) =
           requests (onmessage env sid dec now (msg\<lparr> toolCall := Some \<lparr> functionCalls = pre @ post \<rparr> \<rparr>) s)"
proof -
  let ?msg' = "msg\<lparr> toolCall := Some \<lparr> functionCalls = pre @ post \<rparr> \<rparr>"
  let ?s2 = "show_transcription msg (play_audio dec now msg s)"
  let ?s3 = "fold (dispatch env) (pre @ post) ?s2"
  let ?s4 = "if is_interrupted msg then stop_sources ?s3 else ?s3"
  have audio: "audioBase64 ?msg' = audioBase64 msg" by (simp add: audioBase64_def)
  have same: "play_audio dec now ?msg' s = play_audio dec now msg s"
    "show_transcription ?msg' = show_transcription msg" "is_interrupted ?msg' = is_interrupted msg"
    "tool_calls ?msg' = pre @ post"
    by (simp_all only: play_audio_def audio)
       (simp_all add: show_transcription_def is_interrupted_def tool_calls_def fun_eq_iff)
  have a: "onmessage env sid dec now msg s = fold (acknowledge sid) (pre @ fc # post) ?s4"
    unfolding onmessage_def Let_def calls fold_dispatch_skip [OF unknown] ..
  have b: "onmessage env sid dec now ?msg' s = fold (acknowledge sid) (pre @ post) ?s4"
    unfolding onmessage_def Let_def same ..
  show "status (onmessage env sid dec now msg s) = status (onmessage env sid dec now ?msg' s)"
    unfolding a b by (simp only: fold_acknowledge_fields)
  show "imageState (onmessage env sid dec now msg s) = imageState (onmessage env sid dec now ?msg' s)"
    unfolding a b by (simp only: fold_acknowledge_fields)
  show "requests (onmessage env sid dec now msg s) = requests (onmessage env sid dec now ?msg' s)"
    unfolding a b requests_def fold_acknowledge_effects by (simp add: filter_maps ack_def)
qed

text \<open>
  Property C10. Let a function call be named none of \<open>generateImage\<close>,
  \<open>editImage\<close>, \<open>posterLayout\<close>. Its turn of the dispatch loop leaves the whole state
  as it is: no creative action, status and image state unchanged, no request. In a message
  that holds it among other calls, status, image state and requests are those of the same
  message without it; in a message that holds it alone they are those found before. While
  the session reference is set, its acknowledgement is sent, with its identifier, its name
  and the result \<open>ok\<close>, at its place among the acknowledgements of the message.
\<close>

theorem unknown_tool_acknowledged:
  assumes "fc_name fc \<noteq> ''generateImage''" and "fc_name fc \<noteq> ''editImage''"
    and "fc_name fc \<noteq> ''posterLayout''"
  shows "dispatch env fc s = s \<and>
         (tool_calls msg = pre @ fc # post \<longrightarrow>
            status (onmessage env sid dec now msg s) =
              status (onmessage env sid dec now (msg\<lparr> toolCall := Some \<lparr> functionCalls = pre @ post \<rparr> \<rparr>) s) \<and>
            imageState (onmessage env sid dec now msg s) =
              imageState (onmessage env sid dec now (msg\<lparr> toolCall := Some \<lparr> functionCalls = pre @ post \<rparr> \<rparr>) s) \<and>
            requests (onmessage env sid dec now msg s) =
              requests (onmessage env sid dec now (msg\<lparr> toolCall := Some \<lparr> functionCalls = pre @ post \<rparr> \<rparr>) s)) \<and>
         (tool_calls msg = [fc] \<longrightarrow>
            status (onmessage env sid dec now msg s) = status s \<and>
            imageState (onmessage env sid dec now msg s) = imageState s \<and>
            requests (onmessage env sid dec now msg s) = requests s) \<and>
         (sessionRef s \<noteq> None \<longrightarrow>
            acknowledge sid fc s = emit (SendToolResponse sid (fc_id fc) (fc_name fc) ''ok'') s) \<and>
         (sessionRef s \<noteq> None \<and> tool_calls msg = pre @ fc # post \<longrightarrow>
            responses (onmessage env sid dec now msg s) =
              responses s
                @ map (\<lambda>c. SendToolResponse sid (fc_id c) (fc_name c) ''ok'') pre
                @ [SendToolResponse sid (fc_id fc) (fc_name fc) ''ok'']
                @ map (\<lambda>c. SendToolResponse sid (fc_id c) (fc_name c) ''ok'') post)"
proof (intro conjI impI)
  show "dispatch env fc s = s" using assms by (rule dispatch_unknown)
next
  assume calls: "tool_calls msg = pre @ fc # post"
  show "status (onmessage env sid dec now msg s) =
          status (onmessage env sid dec now (msg\<lparr> toolCall := Some \<lparr> functionCalls = pre @ post \<rparr> \<rparr>) s)"
    and "imageState (onmessage env sid dec now msg s) =
          imageState (onmessage env sid dec now (msg\<lparr> toolCall := Some \<lparr> functionCalls = pre @ post \<rparr> \<rparr>) s)"
    and "requests (onmessage env sid dec now msg s) =
          requests (onmessage env sid dec now (msg\<lparr> toolCall := Some \<lparr> functionCalls = pre @ post \<rparr> \<rparr>) s)"
    using onmessage_without_call [OF assms calls] by blast+
next
  assume one: "tool_calls msg = [fc]"
  have all: "\<forall>c \<in> set (tool_calls msg). fc_name c \<noteq> ''generateImage'' \<and> fc_name c \<noteq> ''editImage'' \<and>
               fc_name c \<noteq> ''posterLayout''"
    using assms one by simp
  show "status (onmessage env sid dec now msg s) = status s"
    and "imageState (onmessage env sid dec now msg s) = imageState s"
    and "requests (onmessage env sid dec now msg s) = requests s"
    using onmessage_unknown_state [OF all] by blast+
next
  assume "sessionRef s \<noteq> None"
  then show "acknowledge sid fc s = emit (SendToolResponse sid (fc_id fc) (fc_name fc) ''ok'') s"
    by (simp add: acknowledge_def)
next
  assume "sessionRef s \<noteq> None \<and> tool_calls msg = pre @ fc # post"
  then show "responses (onmessage env sid dec now msg s) =
              responses s
                @ map (\<lambda>c. SendToolResponse sid (fc_id c) (fc_name c) ''ok'') pre
                @ [SendToolResponse sid (fc_id fc) (fc_name fc) ''ok'']
                @ map (\<lambda>c. SendToolResponse sid (fc_id c) (fc_name c) ''ok'') post"
    using onmessage_responses_live [of s env sid dec now msg] by simp
qed

lemma resume_responses:
  "\<exists>s'. generateImage_resume env res ts s = Inr s' \<and> responses s' = responses s"
  "\<exists>s'. editImage_resume env res ts s = Inr s' \<and> responses s' = responses s"
  by (simp_all add: generateImage_resume_def editImage_resume_def settle_def extract_image_def
        responses_def split: sum.splits option.splits)

text \<open>
  Property C3, as the code has it. While the session reference is set, a message adds exactly
  one acknowledgement per function call, in order, each with the call's identifier and name
  and the result \<open>ok\<close>. The acknowledgement is sent before the action settles, and the
  settling of a generation or an edit, successful or not, sends nothing.
\<close>

theorem tool_calls_acknowledged:
  assumes "sessionRef s \<noteq> None"
  shows "responses (onmessage env sid dec now msg s) =
           responses s @ map (\<lambda>fc. SendToolResponse sid (fc_id fc) (fc_name fc) ''ok'') (tool_calls msg) \<and>
         (\<exists>s'. generateImage_resume env res ts s = Inr s' \<and> responses s' = responses s) \<and>
         (\<exists>s'. editImage_resume env res ts s = Inr s' \<and> responses s' = responses s)"
  by (simp only: onmessage_responses_live [OF assms] resume_responses simp_thms)

text \<open>
  Property C6, as the code has it. A \<open>generateImage\<close> call runs \<open>generateImage\<close>
  with its prompt. \<open>editImage\<close> and \<open>posterLayout\<close> calls run \<open>editImage\<close>, with
  the prompt followed by \<open>. Text to add: \<close> and the text content when that is present and
  not empty, and with the prompt alone when it is absent or empty.
\<close>

theorem tool_dispatch_rule:
  "(fc_name fc = ''generateImage'' \<longrightarrow>
      dispatch env fc s = generateImage_request (prompt (fc_args fc)) s) \<and>
   (fc_name fc = ''editImage'' \<or> fc_name fc = ''posterLayout'' \<longrightarrow>
      dispatch env fc s =
        editImage_begin env
          (case textContent (fc_args fc) of
             None \<Rightarrow> prompt (fc_args fc)
           | Some t \<Rightarrow> if t = [] then prompt (fc_args fc)
                       else prompt (fc_args fc) @ ''. Text to add: '' @ t) s)"
  by (simp add: dispatch_def edit_prompt_def truthy_def js_string_def split: option.splits)

lemma stopped_eq:
  "stopped = initial\<lparr> effects := [NewAudioContext 0 16000, NewAudioContext 1 24000, LiveConnect 2,
      TrackStop 0, ContextClose 0, ContextClose 1, SessionClose 2] \<rparr>"
  by (simp add: stopped_def returned_def listening_def onopen_def stopVoiceSession_eq connecting_eq
        initial_def microphone_def)

lemma started_twice_eq:
  "started_twice = connecting\<lparr>
      audioContextRef := Some \<lparr> ctx_input = \<lparr> ctx_id = 3, ctx_state = Running \<rparr>,
                               ctx_output = \<lparr> ctx_id = 4, ctx_state = Running \<rparr> \<rparr>,
      sessionRef := Some 5,
      effects := [NewAudioContext 0 16000, NewAudioContext 1 24000, LiveConnect 2,
                  NewAudioContext 3 16000, NewAudioContext 4 24000, LiveConnect 5] \<rparr>"
  by (simp add: started_twice_def after_start_def startVoiceSession_def render_def connecting_eq
        initial_def emit_def Let_def)

text \<open>
  Property C8 on the failing input: \<open>startVoiceSession\<close> called a second time before
  \<open>onopen\<close>. The render still has \<open>isLiveActive = False\<close>, so the guard does not
  fire: a second session is opened beside the first, the refs now point to the second, and a
  later \<open>stopVoiceSession\<close> closes only that one.
\<close>

theorem second_start_opens_second_session:
  "isLiveActive connecting = False \<and> status connecting = VOICE_CONNECTING \<and>
   open_sessions connecting = [2] \<and>
   open_sessions started_twice = [2, 5] \<and> sessionRef started_twice = Some 5 \<and>
   open_sessions (returned (stopVoiceSession started_twice) started_twice) = [2]"
  by (simp add: started_twice_eq connecting_eq initial_def open_sessions_def stopVoiceSession_eq
        returned_def microphone_def)

section \<open>The properties on concrete inputs\<close>

lemma listening_eq:
  "listening = initial\<lparr> status := VOICE_ACTIVE, isLiveActive := True,
      audioContextRef := Some \<lparr> ctx_input = \<lparr> ctx_id = 0, ctx_state = Running \<rparr>,
                               ctx_output = \<lparr> ctx_id = 1, ctx_state = Running \<rparr> \<rparr>,
      streamRef := Some microphone, sessionRef := Some 2,
      effects := [NewAudioContext 0 16000, NewAudioContext 1 24000, LiveConnect 2] \<rparr>"
  by (simp add: listening_def onopen_def connecting_eq initial_def)

lemma audio_message_payload: "audioBase64 (audio_message b i) = Some b"
  by (simp add: audioBase64_def audio_message_def inline_part_def)

lemma audio_message_interrupted: "is_interrupted (audio_message b i) = (i = Some True)"
  by (simp add: is_interrupted_def audio_message_def)

lemma audio_message_rest:
  "tool_calls (audio_message b i) = []" "show_transcription (audio_message b i) s = s"
  by (simp_all add: tool_calls_def show_transcription_def audio_message_def)

lemma zero_is_double: "is_double 0"
  using is_double_int [of 0] by simp

lemma tenths_durations:
  "duration (tenths ''A'') = 3602879701896397 / 36028797018963968"
  "duration (tenths ''AAAAAAA'') = 3152519739159347 / 4503599627370496"
  by (simp_all add: tenths_def tenth seven_tenths)

text \<open>C1 (amended) on three chunks of 0.1, 0.7 and 0.1 seconds, all received at time 0.\<close>

theorem gapless_playback_witness:
  "audioContextRef listening \<noteq> None \<and> is_double (nextStartTimeRef listening) \<and>
   truthy (audioBase64 (audio_message ''A'' None)) \<and> \<not> is_interrupted (audio_message ''A'' None) \<and>
   truthy (audioBase64 (audio_message ''AAAAAAA'' None)) \<and>
   \<not> is_interrupted (audio_message ''AAAAAAA'' None) \<and>
   is_double 0 \<and> 0 \<le> duration (tenths ''A'') \<and> 0 \<le> duration (tenths ''AAAAAAA'') \<and>
   length (sourcesRef (run_messages (render initial) 2 tenths short_chunks listening)) = 3 \<and>
   started (run_messages (render initial) 2 tenths short_chunks listening) =
     map SourceStart (sourcesRef (run_messages (render initial) 2 tenths short_chunks listening)) \<and>
   sorted (map src_when (sourcesRef (run_messages (render initial) 2 tenths short_chunks listening))) \<and>
   is_double (nextStartTimeRef (run_messages (render initial) 2 tenths short_chunks listening))"
proof -
  have h1: "audioContextRef listening \<noteq> None"
    by (simp add: listening_eq initial_def)
  have h2: "is_double (nextStartTimeRef listening)"
    by (simp add: listening_eq initial_def zero_is_double)
  have h3: "\<forall>m \<in> set short_chunks. truthy (audioBase64 (snd m)) \<and> \<not> is_interrupted (snd m)"
    by (simp add: short_chunks_def audio_message_payload audio_message_interrupted truthy_def)
  have h4: "\<forall>m \<in> set short_chunks. is_double (fst m) \<and> 0 \<le> fst m"
    by (simp add: short_chunks_def zero_is_double)
  have h5: "\<forall>m \<in> set short_chunks. 0 \<le> duration (tenths (js_string (audioBase64 (snd m))))"
    by (simp add: short_chunks_def audio_message_payload js_string_def tenths_durations)
  have none: "sourcesRef listening = []" "started listening = []" and len: "length short_chunks = 3"
    by (simp_all add: listening_eq initial_def short_chunks_def started_def)
  from gapless_playback [OF h1 h2 h3 h4 h5, of "render initial" 2]
  obtain new where "sourcesRef (run_messages (render initial) 2 tenths short_chunks listening) = sourcesRef listening @ new"
    and "length new = length short_chunks"
    and "started (run_messages (render initial) 2 tenths short_chunks listening) = started listening @ map SourceStart new"
    and "sorted (map src_when new)"
    and "is_double (nextStartTimeRef (run_messages (render initial) 2 tenths short_chunks listening))"
    by blast
  then have "length (sourcesRef (run_messages (render initial) 2 tenths short_chunks listening)) = 3"
    and "started (run_messages (render initial) 2 tenths short_chunks listening) =
           map SourceStart (sourcesRef (run_messages (render initial) 2 tenths short_chunks listening))"
    and "sorted (map src_when (sourcesRef (run_messages (render initial) 2 tenths short_chunks listening)))"
    and "is_double (nextStartTimeRef (run_messages (render initial) 2 tenths short_chunks listening))"
    by (simp_all add: none len)
  then show ?thesis
    using h1 h2
    by (simp add: audio_message_payload audio_message_interrupted truthy_def tenths_durations
          zero_is_double)
qed

lemma tenth_is_double:
  "double_round (3602879701896397 / 36028797018963968) = 3602879701896397 / 36028797018963968"
  using double_round_idem [of "1 / 10"] by (simp add: tenth)

text \<open>
  C1 as stated fails: with chunks of 0.1, 0.7 and 0.1 seconds received at time 0, the second
  starts at the double 0.1 and the cursor after it is that of \<open>0.1 + 0.7\<close> in doubles,
  \<open>0.7999999999999999\<close>, where the third starts: below the second's start time plus its
  duration.
\<close>

theorem rounding_overlap_counterexample:
  "map src_when (sourcesRef (run_messages (render initial) 2 tenths short_chunks listening)) =
     [0, 3602879701896397 / 36028797018963968, 7205759403792793 / 9007199254740992] \<and>
   map (\<lambda>src. duration (src_buffer src))
       (sourcesRef (run_messages (render initial) 2 tenths short_chunks listening)) =
     [3602879701896397 / 36028797018963968, 3152519739159347 / 4503599627370496,
      3602879701896397 / 36028797018963968] \<and>
   (7205759403792793 / 9007199254740992 :: real) <
     3602879701896397 / 36028797018963968 + 3152519739159347 / 4503599627370496"
  by (simp add: short_chunks_def onmessage_def Let_def play_audio_def schedulePlayback_def
        audio_message_payload audio_message_interrupted audio_message_rest truthy_def js_string_def
        tenths_def listening_eq initial_def emit_def js_add_def tenth seven_tenths tenth_is_double
        sum_rounds_down_normal)

text \<open>C2 on a listening session.\<close>

theorem stop_is_idempotent_witness:
  "stopVoiceSession listening = Inr stopped \<and>
   stopped\<lparr> imageState := imageState initial, effects := effects initial \<rparr> = initial \<and>
   and_then (stopVoiceSession listening) stopVoiceSession = Inr stopped"
proof -
  from stop_is_idempotent [of listening] obtain s' where
    s': "stopVoiceSession listening = Inr s'"
    and fresh: "s'\<lparr> imageState := imageState initial, effects := effects initial \<rparr> = initial"
    and twice: "and_then (stopVoiceSession listening) stopVoiceSession = stopVoiceSession listening"
    by blast
  have "stopped = s'" by (simp add: stopped_def returned_def s')
  then show ?thesis using s' fresh twice by simp
qed

text \<open>C3 (amended) on a message with two calls during a listening session.\<close>

theorem tool_calls_acknowledged_witness:
  "sessionRef listening \<noteq> None \<and>
   responses (onmessage (render initial) 2 seconds 0
      (tool_message [call ''call-1'' ''generateImage'' ''a cat'' None,
                     call ''call-2'' ''editImage'' ''make it blue'' None]) listening) =
     [SendToolResponse 2 ''call-1'' ''generateImage'' ''ok'',
      SendToolResponse 2 ''call-2'' ''editImage'' ''ok'']"
proof -
  have h: "sessionRef listening \<noteq> None" by (simp add: listening_eq initial_def)
  have none: "responses listening = []" by (simp add: responses_def listening_eq initial_def)
  show ?thesis
    using h tool_calls_acknowledged [OF h, of "render initial" 2 seconds 0
      "tool_message [call ''call-1'' ''generateImage'' ''a cat'' None,
                     call ''call-2'' ''editImage'' ''make it blue'' None]"]
    by (simp add: none tool_calls_def tool_message_def call_def)
qed

text \<open>
  C3 as stated fails: a message handled after \<open>stopVoiceSession\<close> has cleared the
  session reference has its call dispatched (the request is issued) and not acknowledged.
\<close>

theorem late_tool_call_counterexample:
  "sessionRef stopped = None \<and>
   requests (onmessage (render initial) 2 seconds 0
     (tool_message [call ''call-1'' ''generateImage'' ''a cat'' None]) stopped) =
     [GenerateContent \<lparr> req_model = ''gemini-2.5-flash-image'',
        req_parts = [ReqText ''High quality, aesthetic, a cat''] \<rparr>] \<and>
   responses (onmessage (render initial) 2 seconds 0
     (tool_message [call ''call-1'' ''generateImage'' ''a cat'' None]) stopped) = []"
  by (simp add: onmessage_def Let_def tool_message_def call_def tool_calls_def play_audio_def
        audioBase64_def truthy_def show_transcription_def is_interrupted_def dispatch_def
        generateImage_request_def acknowledge_def stopped_eq initial_def emit_def
        requests_def responses_def)




text \<open>C6 (amended) on one call of each tool.\<close>

theorem tool_dispatch_rule_witness:
  "dispatch (render studio) (call ''call-1'' ''generateImage'' ''a cat'' None) studio =
     generateImage_request ''a cat'' studio \<and>
   dispatch (render studio) (call ''call-2'' ''posterLayout'' ''poster'' (Some ''SALE'')) studio =
     editImage_begin (render studio) ''poster. Text to add: SALE'' studio \<and>
   dispatch (render studio) (call ''call-3'' ''editImage'' ''make it blue'' None) studio =
     editImage_begin (render studio) ''make it blue'' studio"
  using tool_dispatch_rule [of "call ''call-1'' ''generateImage'' ''a cat'' None" "render studio" studio]
    tool_dispatch_rule [of "call ''call-2'' ''posterLayout'' ''poster'' (Some ''SALE'')" "render studio" studio]
    tool_dispatch_rule [of "call ''call-3'' ''editImage'' ''make it blue'' None" "render studio" studio]
  by (simp add: call_def)

text \<open>
  C6 as stated fails: a \<open>posterLayout\<close> call whose text content is present and empty
  sends the prompt alone, not the prompt followed by \<open>. Text to add: \<close>.
\<close>

theorem empty_text_counterexample:
  "requests (dispatch (render studio) (call ''call-4'' ''posterLayout'' ''poster'' (Some '''')) studio) =
     [GenerateContent \<lparr> req_model = ''gemini-2.5-flash-image'',
        req_parts = [ReqInlineData (Some ''9'') ''image/png'',
                     ReqText ''Modify the image based on this: poster''] \<rparr>] \<and>
   requests (editImage_begin (render studio) (''poster'' @ ''. Text to add: '' @ '''') studio) =
     [GenerateContent \<lparr> req_model = ''gemini-2.5-flash-image'',
        req_parts = [ReqInlineData (Some ''9'') ''image/png'',
                     ReqText ''Modify the image based on this: poster. Text to add: ''] \<rparr>]"
  by (simp add: dispatch_def call_def edit_prompt_def truthy_def editImage_begin_def
        editImage_request_def render_def studio_def initial_def emit_def requests_def)

text \<open>C7 with one finished source (whose \<open>stop()\<close> throws) and one scheduled by the message itself.\<close>

theorem interruption_clears_playback_witness:
  "is_interrupted (audio_message ''BB'' (Some True)) \<and>
   sourcesRef (onmessage (render initial) 2 seconds 1 (audio_message ''BB'' (Some True)) playing) = [] \<and>
   nextStartTimeRef (onmessage (render initial) 2 seconds 1 (audio_message ''BB'' (Some True)) playing) = 0 \<and>
   stops (onmessage (render initial) 2 seconds 1 (audio_message ''BB'' (Some True)) playing) =
     [SourceStop \<lparr> src_buffer = seconds ''AAAA'', src_when = 0, src_ended = True \<rparr>,
      SourceStop \<lparr> src_buffer = seconds ''BB'', src_when = 4, src_ended = False \<rparr>]"
proof -
  have h: "is_interrupted (audio_message ''BB'' (Some True))"
    by (simp add: audio_message_interrupted)
  have a: "sourcesRef (play_audio seconds 1 (audio_message ''BB'' (Some True)) playing) =
      [\<lparr> src_buffer = seconds ''AAAA'', src_when = 0, src_ended = True \<rparr>,
       \<lparr> src_buffer = seconds ''BB'', src_when = 4, src_ended = False \<rparr>]"
    by (simp add: play_audio_def schedulePlayback_def Let_def audio_message_payload truthy_def
          js_string_def playing_def listening_eq initial_def)
  have b: "stops playing = []"
    by (simp add: stops_def playing_def listening_eq initial_def)
  show ?thesis
    using h interruption_clears_playback [OF h, of "render initial" 2 seconds 1 playing]
    by (simp add: a b)
qed

text \<open>
  C10 during a listening session: an unknown tool called alone, and after a
  \<open>generateImage\<close> call in the same message.
\<close>

theorem unknown_tool_acknowledged_witness:
  "fc_name (call ''call-9'' ''zoomImage'' ''closer'' None) \<noteq> ''generateImage'' \<and>
   fc_name (call ''call-9'' ''zoomImage'' ''closer'' None) \<noteq> ''editImage'' \<and>
   fc_name (call ''call-9'' ''zoomImage'' ''closer'' None) \<noteq> ''posterLayout'' \<and>
   sessionRef listening \<noteq> None \<and>
   dispatch (render initial) (call ''call-9'' ''zoomImage'' ''closer'' None) listening = listening \<and>
   status (onmessage (render initial) 2 seconds 0
      (tool_message [call ''call-9'' ''zoomImage'' ''closer'' None]) listening) = VOICE_ACTIVE \<and>
   imageState (onmessage (render initial) 2 seconds 0
      (tool_message [call ''call-9'' ''zoomImage'' ''closer'' None]) listening) = imageState initial \<and>
   requests (onmessage (render initial) 2 seconds 0
      (tool_message [call ''call-9'' ''zoomImage'' ''closer'' None]) listening) = [] \<and>
   responses (onmessage (render initial) 2 seconds 0
      (tool_message [call ''call-1'' ''generateImage'' ''a cat'' None,
                     call ''call-9'' ''zoomImage'' ''closer'' None]) listening) =
     [SendToolResponse 2 ''call-1'' ''generateImage'' ''ok'',
      SendToolResponse 2 ''call-9'' ''zoomImage'' ''ok'']"
proof -
  let ?fc = "call ''call-9'' ''zoomImage'' ''closer'' None"
  let ?gen = "call ''call-1'' ''generateImage'' ''a cat'' None"
  have u: "fc_name ?fc \<noteq> ''generateImage''" "fc_name ?fc \<noteq> ''editImage''"
    "fc_name ?fc \<noteq> ''posterLayout''"
    by (simp_all add: call_def)
  have live: "sessionRef listening \<noteq> None" by (simp add: listening_eq initial_def)
  have one: "tool_calls (tool_message [?fc]) = [?fc]"
    and two: "tool_calls (tool_message [?gen, ?fc]) = [?gen] @ ?fc # []"
    by (simp_all add: tool_calls_def tool_message_def)
  have none: "responses listening = []" "requests listening = []" "status listening = VOICE_ACTIVE"
    "imageState listening = imageState initial"
    by (simp_all add: responses_def requests_def listening_eq initial_def)
  note single = unknown_tool_acknowledged [OF u, of "render initial" listening "tool_message [?fc]" "[]" "[]" 2 seconds 0]
  note mixed = unknown_tool_acknowledged [OF u, of "render initial" listening "tool_message [?gen, ?fc]" "[?gen]" "[]" 2 seconds 0]
  have a: "dispatch (render initial) ?fc listening = listening"
    by (rule single [THEN conjunct1])
  have b: "status (onmessage (render initial) 2 seconds 0 (tool_message [?fc]) listening) = status listening"
      "imageState (onmessage (render initial) 2 seconds 0 (tool_message [?fc]) listening) = imageState listening"
      "requests (onmessage (render initial) 2 seconds 0 (tool_message [?fc]) listening) = requests listening"
    using mp [OF single [THEN conjunct2, THEN conjunct2, THEN conjunct1] one] by simp_all
  have c: "responses (onmessage (render initial) 2 seconds 0 (tool_message [?gen, ?fc]) listening) =
      responses listening @ [SendToolResponse 2 (fc_id ?gen) (fc_name ?gen) ''ok'']
        @ [SendToolResponse 2 (fc_id ?fc) (fc_name ?fc) ''ok'']"
    using mp [OF mixed [THEN conjunct2, THEN conjunct2, THEN conjunct2, THEN conjunct2]
          conjI [OF live two]]
    by simp
  show ?thesis
    using u live a b c by (simp add: none call_def)
qed

lemma gallery_eq:
  "gallery = initial\<lparr> imageState :=
      \<lparr> url = Some ''data:image/png;base64,QUJD'', base64 = Some ''QUJD'', timestamp = Some ''09:00:00'',
        history = [\<lparr> item_url = ''data:image/png;base64,QUJD'', item_base64 = Some ''QUJD'',
                     item_timestamp = ''09:00:00'' \<rparr>] \<rparr> \<rparr>"
  by (simp add: gallery_def handleImageUpload_def uploadItem_def second_field_def push_history_def
        render_def initial_def)

text \<open>
  Property C5 on the failing input: the file of an upload is read while a generation
  completes. \<open>reader.onload\<close> builds the history from that of the render in which the
  file was chosen, not from the current one as the updaters of \<open>generateImage\<close> and
  \<open>editImage\<close> do, so the generated item is lost from a history of two; the handler of
  the current render keeps it.
\<close>

theorem stale_upload_drops_generated_item:
  "history (imageState gallery_generated) =
     [\<lparr> item_url = ''data:image/png;base64,R0VO'', item_base64 = Some ''R0VO'', item_timestamp = ''09:00:05'' \<rparr>,
      \<lparr> item_url = ''data:image/png;base64,QUJD'', item_base64 = Some ''QUJD'', item_timestamp = ''09:00:00'' \<rparr>] \<and>
   history (imageState (handleImageUpload (render gallery) ''data:image/png;base64,VVBM'' ''09:00:06''
                          gallery_generated)) =
     [\<lparr> item_url = ''data:image/png;base64,VVBM'', item_base64 = Some ''VVBM'', item_timestamp = ''09:00:06'' \<rparr>,
      \<lparr> item_url = ''data:image/png;base64,QUJD'', item_base64 = Some ''QUJD'', item_timestamp = ''09:00:00'' \<rparr>] \<and>
   history (imageState (handleImageUpload (render gallery_generated) ''data:image/png;base64,VVBM'' ''09:00:06''
                          gallery_generated)) =
     [\<lparr> item_url = ''data:image/png;base64,VVBM'', item_base64 = Some ''VVBM'', item_timestamp = ''09:00:06'' \<rparr>,
      \<lparr> item_url = ''data:image/png;base64,R0VO'', item_base64 = Some ''R0VO'', item_timestamp = ''09:00:05'' \<rparr>,
      \<lparr> item_url = ''data:image/png;base64,QUJD'', item_base64 = Some ''QUJD'', item_timestamp = ''09:00:00'' \<rparr>]"
  by (simp add: gallery_generated_def returned_def generateImage_def generate_resume_eq
        generateImage_request_def image_of_def response_of_def candidate_parts_def inline_part_def
        pushArtifact_def newItem_def js_string_def handleImageUpload_def uploadItem_def
        second_field_def push_history_def render_def emit_def gallery_eq initial_def)

lemma cleared_eq:
  "cleared = gallery_listening\<lparr> imageState :=
      \<lparr> url = Some ''data:'', base64 = None, timestamp = Some ''09:01:00'',
        history = [\<lparr> item_url = ''data:'', item_base64 = None, item_timestamp = ''09:01:00'' \<rparr>,
                   \<lparr> item_url = ''data:image/png;base64,QUJD'', item_base64 = Some ''QUJD'',
                     item_timestamp = ''09:00:00'' \<rparr>] \<rparr> \<rparr> \<and>
   status gallery_listening = VOICE_ACTIVE \<and> sessionRef gallery_listening = Some 2 \<and>
   effects gallery_listening = [NewAudioContext 0 16000, NewAudioContext 1 24000, LiveConnect 2]"
  by (simp add: cleared_def gallery_listening_def onopen_def after_start_def startVoiceSession_def
        handleImageUpload_def uploadItem_def second_field_def push_history_def render_def emit_def
        Let_def gallery_eq initial_def)

text \<open>
  Property C9 on the failing input: a session is started while an image is current, an empty
  file is uploaded, and an \<open>editImage\<close> call arrives. There is no current raw encoded
  image, yet the \<open>editImage\<close> reached from \<open>onmessage\<close>, that of the render in which
  the session was started, sets \<open>EDITING\<close> and sends the image of that render. The
  \<open>editImage\<close> of the current render returns at once.
\<close>

theorem stale_edit_sends_old_image:
  "base64 (imageState cleared) = None \<and>
   status (onmessage (render gallery) 2 seconds 0
     (tool_message [call ''call-1'' ''editImage'' ''make it blue'' None]) cleared) = EDITING \<and>
   requests (onmessage (render gallery) 2 seconds 0
     (tool_message [call ''call-1'' ''editImage'' ''make it blue'' None]) cleared) =
     [GenerateContent \<lparr> req_model = ''gemini-2.5-flash-image'',
        req_parts = [ReqInlineData (Some ''QUJD'') ''image/png'',
                     ReqText ''Modify the image based on this: make it blue''] \<rparr>] \<and>
   editImage_begin (render cleared) ''make it blue'' cleared = cleared"
  by (simp add: onmessage_def Let_def tool_message_def call_def tool_calls_def play_audio_def
        audioBase64_def truthy_def show_transcription_def is_interrupted_def dispatch_def
        edit_prompt_def editImage_begin_def editImage_request_def acknowledge_def requests_def
        render_def emit_def cleared_eq gallery_eq initial_def)

end
